theory Spec2Isabelle
  imports Complex_Main "HOL-Library.Sublist"
begin

section \<open>JavaScript values\<close>

text \<open>
  The credit amounts, plan prices and sort keys of the program are JavaScript numbers.
  A number is modelled as a finite rational (every finite double is one), one of the two
  infinities, or NaN. Rounding is not modelled, and the two zeros are identified; the
  quotient of a non-zero finite number by zero takes the sign of the numerator. What
  matters below is which results are NaN and how values compare, and both are as in
  IEEE arithmetic: \<open>0 / 0\<close>, \<open>Infinity / Infinity\<close> and \<open>Infinity - Infinity\<close> are NaN,
  NaN propagates through every operation, and every comparison with NaN is false.
\<close>

datatype jsnum = Fin rat | PosInf | NegInf | NaN

fun js_neg :: "jsnum \<Rightarrow> jsnum" where
  "js_neg (Fin x) = Fin (- x)"
| "js_neg PosInf = NegInf"
| "js_neg NegInf = PosInf"
| "js_neg NaN = NaN"

fun js_add :: "jsnum \<Rightarrow> jsnum \<Rightarrow> jsnum" where
  "js_add NaN b = NaN"
| "js_add a NaN = NaN"
| "js_add (Fin x) (Fin y) = Fin (x + y)"
| "js_add (Fin x) b = b"
| "js_add a (Fin y) = a"
| "js_add PosInf PosInf = PosInf"
| "js_add NegInf NegInf = NegInf"
| "js_add PosInf NegInf = NaN"
| "js_add NegInf PosInf = NaN"

definition js_sub :: "jsnum \<Rightarrow> jsnum \<Rightarrow> jsnum" where
  "js_sub a b = js_add a (js_neg b)"

fun js_div :: "jsnum \<Rightarrow> jsnum \<Rightarrow> jsnum" where
  "js_div NaN b = NaN"
| "js_div a NaN = NaN"
| "js_div (Fin x) (Fin y) =
     (if y \<noteq> 0 then Fin (x / y)
      else if x = 0 then NaN
      else if 0 < x then PosInf else NegInf)"
| "js_div (Fin x) b = Fin 0"
| "js_div PosInf (Fin y) = (if 0 \<le> y then PosInf else NegInf)"
| "js_div NegInf (Fin y) = (if 0 \<le> y then NegInf else PosInf)"
| "js_div a b = NaN"

text \<open>\<open>a > b\<close> and \<open>a >= b\<close> on numbers.\<close>

fun js_gt :: "jsnum \<Rightarrow> jsnum \<Rightarrow> bool" where
  "js_gt NaN b = False"
| "js_gt a NaN = False"
| "js_gt (Fin x) (Fin y) = (y < x)"
| "js_gt PosInf b = (b \<noteq> PosInf)"
| "js_gt a NegInf = (a \<noteq> NegInf)"
| "js_gt a b = False"

definition js_ge :: "jsnum \<Rightarrow> jsnum \<Rightarrow> bool" where
  "js_ge a b = (a \<noteq> NaN \<and> b \<noteq> NaN \<and> (js_gt a b \<or> a = b))"

text \<open>\<open>Math.max(a, b)\<close>: NaN when either argument is NaN.\<close>

definition Math_max :: "jsnum \<Rightarrow> jsnum \<Rightarrow> jsnum" where
  "Math_max a b = (if a = NaN \<or> b = NaN then NaN else if js_gt b a then b else a)"

text \<open>
  Truthiness of a string (\<open>!s\<close>, \<open>s || ...\<close>, \<open>s && ...\<close>): the empty string is falsy. An
  optional string is \<open>None\<close> when the property is undefined.
\<close>

definition truthy :: "string option \<Rightarrow> bool" where
  "truthy s = (case s of None \<Rightarrow> False | Some t \<Rightarrow> t \<noteq> [])"

text \<open>\<open>s || ''\<close> on an optional string.\<close>

definition or_empty :: "string option \<Rightarrow> string" where
  "or_empty s = (case s of None \<Rightarrow> [] | Some t \<Rightarrow> t)"

text \<open>\<open>s.startsWith(t)\<close> and \<open>s.includes(t)\<close>.\<close>

definition startsWith :: "string \<Rightarrow> string \<Rightarrow> bool" where
  "startsWith s t = prefix t s"

definition includes_str :: "string \<Rightarrow> string \<Rightarrow> bool" where
  "includes_str s t = sublist t s"

section \<open>The credit system (credit-system.ts)\<close>

text \<open>
  \<open>CreditConfig\<close> and \<open>CreditSystemConfig\<close>. The optional \<open>formatter\<close> and the \<open>formatted\<close>
  strings it produces are presentation only and are left out; \<open>secondary\<close> is optional.
\<close>

record credit_config =
  key :: string
  displayName :: string
  currency :: string
  divisor :: jsnum

record credit_system_config =
  primary :: credit_config
  secondary :: "credit_config list option"

text \<open>
  \<open>Customer\<close> (customer-details.tsx): a feature carries an optional \<open>balance\<close>; \<open>products\<close>
  and \<open>features\<close> are optional in the source and read through \<open>?.\<close> only, so an absent
  \<open>products\<close> is the empty list and an absent \<open>features\<close> the empty map.
\<close>

record feature =
  balance :: "jsnum option"

record product =
  product_id :: "string option"
  product_name :: "string option"
  product_status :: string
  product_group :: string

record customer =
  customer_id :: string
  customer_name :: "string option"
  customer_email :: "string option"
  products :: "product list"
  features :: "string \<rightharpoonup> feature"

record credit_amount =
  config :: credit_config
  amount :: jsnum

record customer_credits =
  primary_credit :: credit_amount
  secondary_credits :: "credit_amount list"
  total :: jsnum

text \<open>\<open>credit.balance ?? 0\<close>.\<close>

definition balance_or_zero :: "feature \<Rightarrow> jsnum" where
  "balance_or_zero credit = (case balance credit of None \<Rightarrow> Fin 0 | Some b \<Rightarrow> b)"

text \<open>
  The amount of one credit, as \<open>getCreditBalance\<close> computes it for a key and as
  \<open>getCustomerCredits\<close> computes it for the primary and for each secondary configuration:
  \<^verbatim>\<open>credit ? Math.max(0, -(credit.balance ?? 0) / divisor) : 0\<close>
\<close>

definition getCreditBalance :: "customer \<Rightarrow> string \<Rightarrow> jsnum \<Rightarrow> jsnum" where
  "getCreditBalance c creditKey d =
     (case features c creditKey of
        None \<Rightarrow> Fin 0
      | Some credit \<Rightarrow> Math_max (Fin 0) (js_div (js_neg (balance_or_zero credit)) d))"

definition getCustomerCredits :: "customer \<Rightarrow> credit_system_config \<Rightarrow> customer_credits" where
  "getCustomerCredits c cfg =
     (let primaryAmount =
            (case features c (key (primary cfg)) of
               None \<Rightarrow> Fin 0
             | Some primaryCredit \<Rightarrow>
                 Math_max (Fin 0)
                   (js_div (js_neg (balance_or_zero primaryCredit)) (divisor (primary cfg))));
          secondaryCredits =
            (case secondary cfg of
               None \<Rightarrow> []
             | Some cfgs \<Rightarrow>
                 map (\<lambda>creditConfig.
                        \<lparr>config = creditConfig,
                         amount =
                           (case features c (key creditConfig) of
                              None \<Rightarrow> Fin 0
                            | Some credit \<Rightarrow>
                                Math_max (Fin 0)
                                  (js_div (js_neg (balance_or_zero credit))
                                     (divisor creditConfig)))\<rparr>)
                     cfgs)
      in \<lparr>primary_credit = \<lparr>config = primary cfg, amount = primaryAmount\<rparr>,
          secondary_credits = secondaryCredits,
          total = js_add primaryAmount
                    (foldl (\<lambda>sum sc. js_add sum (amount sc)) (Fin 0) secondaryCredits)\<rparr>)"

section \<open>Per-item status and the message classifier (CustomerTable)\<close>

datatype item_state = pending | in_progress | completed | failed

record item_status =
  status :: item_state
  message :: "string option"

text \<open>
  The \<open>finalStatus\<close> that \<open>batchStatusCallback\<close> computes from the free-text message:
  \<^verbatim>\<open>
  let finalStatus = 'in_progress';
  if (status.startsWith('ERROR:') || status.includes('failed')) {
    finalStatus = 'failed';
  } else if (status.includes('completed successfully') || status.includes('No migration required')) {
    finalStatus = 'completed';
  }\<close>
\<close>

definition finalStatus :: "string \<Rightarrow> item_state" where
  "finalStatus msg =
     (if startsWith msg ''ERROR:'' \<or> includes_str msg ''failed'' then failed
      else if includes_str msg ''completed successfully'' \<or> includes_str msg ''No migration required''
      then completed
      else in_progress)"

section \<open>Actions and their handlers (external-actions.tsx)\<close>

text \<open>
  Handlers are supplied by the configuration and are opaque. A thrown value is an \<open>Error\<close>
  with its message, or something that is not an \<open>Error\<close>. An \<open>outcome\<close> is how a call or a
  promise ends: with a value, or with a thrown value (a rejection).

  A call of a single handler throws, or it returns one of three kinds of result: a plain
  value (void or a React element); a native promise, for which \<open>result instanceof Promise\<close>
  holds, with the outcome it settles to; or a promise-like object that is not a native
  promise (a thenable of another library or realm), with the outcome it will settle to.
  The callers await a native promise only:
  \<^verbatim>\<open>
  const result = action.handler(customerId, customer, individualStatusCallback);
  if (result instanceof Promise) {
    await result;
  }\<close>
  With the call come the messages that it passes to its status callback before the caller
  goes on: for a native promise those until it settles, otherwise those during the call.
  A batch handler is always awaited (\<open>await action.batchHandler(...)\<close>).
\<close>

datatype thrown = Error string | NonError

datatype 'a outcome = Settled 'a | Threw thrown

datatype 'a returned = Value 'a | Promise "'a outcome" | Thenable "'a outcome"

datatype element = Element string

record action_option =
  action_id :: string
  label :: string
  handler :: "string \<Rightarrow> customer \<Rightarrow> string list \<times> element option returned outcome"
  batchHandler ::
    "(string list \<Rightarrow> customer option list \<Rightarrow> (string \<times> string) list \<times> unit outcome)
       option"

text \<open>\<open>xs[i]\<close>: undefined out of range.\<close>

definition item_at :: "'a list \<Rightarrow> nat \<Rightarrow> 'a option" where
  "item_at xs i = (if i < length xs then Some (xs ! i) else None)"

section \<open>The customer table (component \<open>CustomerTable\<close>)\<close>

text \<open>
  What the component receives: its props and the configuration. \<open>fuzzysort_single q t\<close>
  stands for the library call \<open>fuzzysort.single(q, t)\<close>: \<open>None\<close> for \<open>null\<close>, otherwise the
  score of the result.
\<close>

record env =
  customers :: "customer list"
  livePlanPrices :: "string \<rightharpoonup> jsnum"
  ui_itemsPerPage :: "nat option"
  creditSystem :: credit_system_config
  actions :: "action_option list"
  fuzzysort_single :: "string \<Rightarrow> string \<Rightarrow> jsnum option"

text \<open>
  The state of the component: its own \<open>useState\<close> cells, followed by those of the
  \<open>useExternalActions\<close> hook.
\<close>

record table_state =
  currentPage :: nat
  selectedCustomerIndex :: nat
  hideZeroCreditUsers :: bool
  isFullScreenDetailsOpen :: bool
  isFuzzySearchMode :: bool
  fuzzySearchQuery :: string
  isHelpOpen :: bool
  isMultiSelectMode :: bool
  selectedCustomerIds :: "string set"
  isBatchMigrationInProgress :: bool
  migrationStatuses :: "string \<rightharpoonup> item_status"
  selectedActionIndex :: nat
  isMenuOpen :: bool
  isLoading :: bool
  currentStatus :: "string option"
  executingActionId :: "string option"
  componentDialog :: "element option"
  isComponentDialogOpen :: bool

definition initial_state :: table_state where
  "initial_state =
     \<lparr>currentPage = 0, selectedCustomerIndex = 0, hideZeroCreditUsers = False,
      isFullScreenDetailsOpen = False, isFuzzySearchMode = False, fuzzySearchQuery = [],
      isHelpOpen = False, isMultiSelectMode = False, selectedCustomerIds = {},
      isBatchMigrationInProgress = False, migrationStatuses = Map.empty,
      selectedActionIndex = 0, isMenuOpen = False, isLoading = False,
      currentStatus = None, executingActionId = None, componentDialog = None,
      isComponentDialogOpen = False\<rparr>"

text \<open>\<open>(config.ui?.itemsPerPage ?? 8) || 8\<close>.\<close>

definition itemsPerPage :: "env \<Rightarrow> nat" where
  "itemsPerPage e =
     (case ui_itemsPerPage e of None \<Rightarrow> 8 | Some n \<Rightarrow> if n = 0 then 8 else n)"

definition getPlanPrice :: "env \<Rightarrow> product option \<Rightarrow> jsnum" where
  "getPlanPrice e plan =
     (case plan of
        None \<Rightarrow> Fin 0
      | Some p \<Rightarrow>
          if truthy (product_id p) \<and> livePlanPrices e (the (product_id p)) \<noteq> None
          then the (livePlanPrices e (the (product_id p)))
          else if truthy (product_name p) \<and> livePlanPrices e (the (product_name p)) \<noteq> None
          then the (livePlanPrices e (the (product_name p)))
          else Fin 0)"

subsection \<open>The filter and sort pipeline\<close>

definition lower_char :: "char \<Rightarrow> char" where
  "lower_char c =
     (if (65::nat) \<le> of_char c \<and> of_char c \<le> (90::nat)
      then char_of (of_char c + (32::nat)) else c)"

definition toLowerCase :: "string \<Rightarrow> string" where
  "toLowerCase s = map lower_char s"

text \<open>
  \<open>s.trim()\<close>: white space is removed at both ends. Of the white space and line
  terminator characters of the language, those below 256 are listed.
\<close>

definition white_space :: "char \<Rightarrow> bool" where
  "white_space c = (c \<in> set [CHR '' '', CHR 0x09, CHR 0x0A, CHR 0x0B, CHR 0x0C, CHR 0x0D, CHR 0xA0])"

definition trim :: "string \<Rightarrow> string" where
  "trim s = rev (dropWhile white_space (rev (dropWhile white_space s)))"

record customer_entry =
  customer :: customer
  planPrice :: jsnum
  creditsUsed :: jsnum
  totalValue :: jsnum
  searchableText :: string

text \<open>The object that the \<open>map\<close> step of \<open>sortedCustomers\<close> builds for one customer.\<close>

definition entry_of :: "env \<Rightarrow> customer \<Rightarrow> customer_entry" where
  "entry_of e c =
     (let credits = getCustomerCredits c (creditSystem e);
          activePlan =
            find (\<lambda>p. product_status p = ''active'' \<and> product_group p = ''plan'') (products c);
          price = getPlanPrice e activePlan
      in \<lparr>customer = c,
          planPrice = price,
          creditsUsed = total credits,
          totalValue = js_add price (total credits),
          searchableText =
            toLowerCase (or_empty (customer_name c) @ '' '' @ or_empty (customer_email c)
                         @ '' '' @ customer_id c)\<rparr>)"

text \<open>
  \<open>xs.sort(cmp)\<close>. The sort is stable, and \<open>x\<close> is moved behind \<open>y\<close> only when
  \<open>cmp(x, y) > 0\<close>; a comparator result of NaN counts as 0. For a consistent comparator
  the result is determined by this, and the insertion sort below computes it. (For an
  inconsistent one, which needs a NaN key, the language leaves the order to the engine.)
\<close>

fun insert_cmp :: "('a \<Rightarrow> 'a \<Rightarrow> jsnum) \<Rightarrow> 'a \<Rightarrow> 'a list \<Rightarrow> 'a list" where
  "insert_cmp cmp x [] = [x]"
| "insert_cmp cmp x (y # ys) =
     (if js_gt (cmp x y) (Fin 0) then y # insert_cmp cmp x ys else x # y # ys)"

definition Array_sort :: "('a \<Rightarrow> 'a \<Rightarrow> jsnum) \<Rightarrow> 'a list \<Rightarrow> 'a list" where
  "Array_sort cmp xs = foldr (insert_cmp cmp) xs []"

text \<open>\<open>fuzzysort.single(query, text)?.score || -Infinity\<close>: a score of 0 or NaN is falsy.\<close>

definition score_of :: "env \<Rightarrow> string \<Rightarrow> customer_entry \<Rightarrow> jsnum" where
  "score_of e q a =
     (case fuzzysort_single e q (searchableText a) of
        None \<Rightarrow> NegInf
      | Some sc \<Rightarrow> if sc = Fin 0 \<or> sc = NaN then NegInf else sc)"

definition compare_entries :: "env \<Rightarrow> string \<Rightarrow> customer_entry \<Rightarrow> customer_entry \<Rightarrow> jsnum" where
  "compare_entries e q a b =
     (if trim q \<noteq> [] then js_sub (score_of e q b) (score_of e q a)
      else js_sub (totalValue b) (totalValue a))"

text \<open>
  \<open>sortedCustomers\<close>: the entries are built, filtered twice and sorted.
  \<^verbatim>\<open>
  .filter(({ creditsUsed }) => !hideZeroCreditUsers || creditsUsed > 0)
  .filter(({ searchableText }) => {
    if (!fuzzySearchQuery.trim()) return true;
    const results = fuzzysort.single(fuzzySearchQuery, searchableText);
    return results !== null;
  })
  .sort((a, b) => {
    if (fuzzySearchQuery.trim()) { ...; return scoreB - scoreA; }
    return b.totalValue - a.totalValue;
  })\<close>
\<close>

definition sortedCustomers :: "env \<Rightarrow> table_state \<Rightarrow> customer_entry list" where
  "sortedCustomers e s =
     Array_sort (compare_entries e (fuzzySearchQuery s))
       (filter (\<lambda>a. trim (fuzzySearchQuery s) = []
                     \<or> fuzzysort_single e (fuzzySearchQuery s) (searchableText a) \<noteq> None)
          (filter (\<lambda>a. \<not> hideZeroCreditUsers s \<or> js_gt (creditsUsed a) (Fin 0))
             (map (entry_of e) (customers e))))"

text \<open>\<open>Math.ceil(sortedCustomers.length / itemsPerPage)\<close>; \<open>itemsPerPage\<close> is positive.\<close>

definition totalPages :: "env \<Rightarrow> table_state \<Rightarrow> nat" where
  "totalPages e s = (length (sortedCustomers e s) + itemsPerPage e - 1) div itemsPerPage e"

definition currentCustomers :: "env \<Rightarrow> table_state \<Rightarrow> customer_entry list" where
  "currentCustomers e s =
     take (itemsPerPage e) (drop (currentPage s * itemsPerPage e) (sortedCustomers e s))"

subsection \<open>The hook \<open>useExternalActions\<close>\<close>

text \<open>
  The functions of the hook and of the component are closures of one render: they read
  the state \<open>s\<close> of that render. A setter called with a value overwrites the cell; a
  setter called with a function (\<open>setMigrationStatuses(prev => ...)\<close>) updates the cell's
  value of that moment. So each function below takes the state \<open>s\<close> it was created in,
  where it reads a cell, and the state \<open>st\<close> it updates.
\<close>

definition openMenu :: "table_state \<Rightarrow> table_state" where
  "openMenu st = st\<lparr>isMenuOpen := True, selectedActionIndex := 0\<rparr>"

definition closeMenu :: "table_state \<Rightarrow> table_state \<Rightarrow> table_state" where
  "closeMenu s st =
     (if \<not> isLoading s
      then st\<lparr>isMenuOpen := False, selectedActionIndex := 0, currentStatus := None,
              executingActionId := None\<rparr>
      else st)"

definition navigateUp :: "table_state \<Rightarrow> table_state \<Rightarrow> table_state" where
  "navigateUp s st =
     (if 0 < selectedActionIndex s then st\<lparr>selectedActionIndex := selectedActionIndex s - 1\<rparr>
      else st)"

definition navigateDown :: "env \<Rightarrow> table_state \<Rightarrow> table_state \<Rightarrow> table_state" where
  "navigateDown e s st =
     (if selectedActionIndex s + 1 < length (actions e)
      then st\<lparr>selectedActionIndex := selectedActionIndex s + 1\<rparr>
      else st)"

definition closeComponentDialog :: "table_state \<Rightarrow> table_state" where
  "closeComponentDialog st = st\<lparr>isComponentDialogOpen := False, componentDialog := None\<rparr>"

text \<open>
  An asynchronous function is modelled from its call to the moment its promise settles,
  with the status messages of the handlers it awaits delivered in between and no key event
  interleaved. What such a run does besides updating the state is recorded as a list of
  events: the handler calls it makes and what it writes to the console. A status callback
  that fires at another moment, for instance after the operator has closed the overlay,
  is the callback applied to the state of that moment.
\<close>

datatype event =
    SingleHandlerCalled string string
  | HandlerCalled nat string
  | HandlerSettled nat
  | InvalidCustomerData nat
  | BatchHandlerCalled "string list"
  | BatchActionFailed thrown

type_synonym status_callback = "string \<Rightarrow> string \<Rightarrow> table_state \<Rightarrow> table_state"

text \<open>\<open>statusCallback?.(customerId, status)\<close>.\<close>

definition call_optional :: "status_callback option \<Rightarrow> status_callback" where
  "call_optional cb customerId msg st = (case cb of None \<Rightarrow> st | Some f \<Rightarrow> f customerId msg st)"

text \<open>\<open>error instanceof Error ? error.message : dflt\<close>.\<close>

definition message_or :: "thrown \<Rightarrow> string \<Rightarrow> string" where
  "message_or err dflt = (case err of Error m \<Rightarrow> m | NonError \<Rightarrow> dflt)"

text \<open>
  What a caller has of a handler call once it goes on, inside its \<open>try\<close> block: the thrown
  value when the call throws or the awaited native promise rejects; otherwise the final
  result, which is the plain value, the value the native promise resolves to, or the
  promise-like object itself, which is not a React element. In the last case the call is
  left pending: the caller goes on while the object has not settled, and what it settles
  to, a rejection too, reaches nobody.
\<close>

definition await_if_promise :: "element option returned outcome \<Rightarrow> element option outcome" where
  "await_if_promise call =
     (case call of
        Threw err \<Rightarrow> Threw err
      | Settled result \<Rightarrow>
          (case result of
             Value v \<Rightarrow> Settled v
           | Promise settles \<Rightarrow> settles
           | Thenable settles \<Rightarrow> Settled None))"

definition left_pending :: "'a returned outcome \<Rightarrow> bool" where
  "left_pending call =
     (case call of
        Threw err \<Rightarrow> False
      | Settled result \<Rightarrow>
          (case result of Value v \<Rightarrow> False | Promise settles \<Rightarrow> False | Thenable settles \<Rightarrow> True))"

text \<open>
  \<open>executeSelectedAction\<close>, up to the point where its promise resolves. On the error path
  the state is reset two seconds later, by \<open>errorTimeout\<close>.
\<close>

definition executeSelectedAction ::
  "env \<Rightarrow> table_state \<Rightarrow> string \<Rightarrow> customer \<Rightarrow> table_state \<times> event list \<times> unit outcome" where
  "executeSelectedAction e s customerId cust =
     (case item_at (actions e) (selectedActionIndex s) of
        None \<Rightarrow> (s, [], Settled ())
      | Some action \<Rightarrow>
          (let st0 = s\<lparr>isLoading := True, currentStatus := None,
                       executingActionId := Some (action_id action)\<rparr>
           in case handler action customerId cust of
                (msgs, result) \<Rightarrow>
                  (let st1 = foldl (\<lambda>st m. st\<lparr>currentStatus := Some m\<rparr>) st0 msgs;
                       evs = [SingleHandlerCalled (action_id action) customerId]
                   in case await_if_promise result of
                        Settled (Some el) \<Rightarrow>
                          (st1\<lparr>componentDialog := Some el, isComponentDialogOpen := True,
                               isLoading := False, currentStatus := None,
                               executingActionId := None, isMenuOpen := False,
                               selectedActionIndex := 0\<rparr>, evs, Settled ())
                      | Settled None \<Rightarrow>
                          (st1\<lparr>isLoading := False, currentStatus := None,
                               executingActionId := None, isMenuOpen := False,
                               selectedActionIndex := 0\<rparr>, evs, Settled ())
                      | Threw err \<Rightarrow>
                          (st1\<lparr>currentStatus :=
                                 Some (''Error: '' @ message_or err ''Unknown error'')\<rparr>,
                           evs, Settled ()))))"

definition errorTimeout :: "table_state \<Rightarrow> table_state" where
  "errorTimeout st =
     st\<lparr>isLoading := False, currentStatus := None, executingActionId := None,
        isMenuOpen := False, selectedActionIndex := 0\<rparr>"

text \<open>
  The fallback loop of \<open>executeBatchAction\<close>, from position \<open>i\<close> on. An entry of
  \<open>customers\<close> is \<open>None\<close> when it is undefined or null; positions past the end of
  \<open>customers\<close> read as undefined. \<open>HandlerSettled i\<close> is recorded when the call for
  position \<open>i\<close> is over before the loop goes on: it has returned a plain value, it has
  thrown, or its native promise has been awaited. A call that is left pending has no such
  event before the next position is looked at.
\<close>

function fallback_loop ::
  "action_option \<Rightarrow> string list \<Rightarrow> customer option list \<Rightarrow> status_callback option \<Rightarrow> nat
   \<Rightarrow> table_state \<Rightarrow> table_state \<times> event list \<times> unit outcome" where
  "fallback_loop action customerIds custs cb i st =
     (if i < length customerIds then
        (let customerId = customerIds ! i;
             cust = (case item_at custs i of None \<Rightarrow> None | Some c \<Rightarrow> c)
         in if customerId = [] \<or> cust = None then
              (case fallback_loop action customerIds custs cb (Suc i) st of
                 (st', evs, r) \<Rightarrow> (st', InvalidCustomerData i # evs, r))
            else
              (case handler action customerId (the cust) of
                 (msgs, result) \<Rightarrow>
                   (let st1 = foldl (\<lambda>acc m. call_optional cb customerId m acc) st msgs
                    in case await_if_promise result of
                         Threw err \<Rightarrow>
                           (st1, [HandlerCalled i customerId, HandlerSettled i], Threw err)
                       | Settled v \<Rightarrow>
                           (case fallback_loop action customerIds custs cb (Suc i) st1 of
                              (st', evs, r) \<Rightarrow>
                                (st',
                                 HandlerCalled i customerId
                                 # (if left_pending result then evs else HandlerSettled i # evs),
                                 r)))))
      else (st, [], Settled ()))"
  by pat_completeness auto
termination
  by (relation "measure (\<lambda>(action, customerIds, custs, cb, i, st). length customerIds - i)") auto

declare fallback_loop.simps [simp del]

text \<open>
  \<open>executeBatchAction\<close>. Called with an undefined action, the read of
  \<open>action.batchHandler\<close> raises a TypeError inside the \<open>try\<close>; nothing in the program reads
  its message, which is the engine's.
\<close>

definition engine_type_error :: thrown where
  "engine_type_error = Error ''undefined is not an object''"

definition executeBatchAction ::
  "action_option option \<Rightarrow> string list \<Rightarrow> customer option list \<Rightarrow> status_callback option
   \<Rightarrow> table_state \<Rightarrow> table_state \<times> event list \<times> unit outcome" where
  "executeBatchAction action customerIds custs cb st =
     (case (case action of
              None \<Rightarrow> (st, [], Threw engine_type_error)
            | Some a \<Rightarrow>
                (case batchHandler a of
                   Some bh \<Rightarrow>
                     (case bh customerIds custs of
                        (calls, r) \<Rightarrow>
                          (foldl (\<lambda>acc (customerId, m). call_optional cb customerId m acc) st calls,
                           [BatchHandlerCalled customerIds], r))
                 | None \<Rightarrow> fallback_loop a customerIds custs cb 0 st)) of
        (st', evs, Threw err) \<Rightarrow> (st', evs @ [BatchActionFailed err], Threw err)
      | (st', evs, Settled u) \<Rightarrow> (st', evs, Settled u))"

subsection \<open>Batch actions of the table\<close>

text \<open>
  The status callback that \<open>handleBatchAction\<close> passes to the batch. It is an unconditional
  functional update of the status map:
  \<^verbatim>\<open>setMigrationStatuses(prev => new Map(prev.set(customerId, { status: finalStatus, message: status })));\<close>
\<close>

definition batchStatusCallback :: status_callback where
  "batchStatusCallback customerId msg st =
     st\<lparr>migrationStatuses :=
          (migrationStatuses st)(customerId \<mapsto> \<lparr>status = finalStatus msg, message = Some msg\<rparr>)\<rparr>"

definition initialStatuses :: "customer_entry list \<Rightarrow> (string \<rightharpoonup> item_status)" where
  "initialStatuses selectedCustomers =
     foldl (\<lambda>m c. m(customer_id (customer c) \<mapsto> \<lparr>status = pending, message = None\<rparr>))
       Map.empty selectedCustomers"

text \<open>
  The \<open>catch\<close> block of \<open>handleBatchAction\<close>. It reads \<open>migrationStatuses\<close>, the map of the
  render \<open>s\<close> in which \<open>handleBatchAction\<close> was created, and writes with a functional update.
  \<^verbatim>\<open>
  selectedCustomers.forEach(customerEntry => {
    const currentStatus = migrationStatuses.get(customerEntry.customer.id);
    if (!currentStatus || currentStatus.status === 'pending' || currentStatus.status === 'in_progress') {
      setMigrationStatuses(prev => new Map(prev.set(customerEntry.customer.id, {
        status: 'failed',
        message: error instanceof Error ? error.message : 'Batch operation failed'
      })));
    }
  });\<close>
\<close>

definition markRemainingFailed ::
  "table_state \<Rightarrow> customer_entry list \<Rightarrow> thrown \<Rightarrow> table_state \<Rightarrow> table_state" where
  "markRemainingFailed s selectedCustomers err st =
     foldl (\<lambda>acc customerEntry.
              (case migrationStatuses s (customer_id (customer customerEntry)) of
                 None \<Rightarrow>
                   acc\<lparr>migrationStatuses :=
                         (migrationStatuses acc)(customer_id (customer customerEntry) \<mapsto>
                            \<lparr>status = failed,
                             message = Some (message_or err ''Batch operation failed'')\<rparr>)\<rparr>
               | Some currentStatus' \<Rightarrow>
                   if status currentStatus' = pending \<or> status currentStatus' = in_progress
                   then acc\<lparr>migrationStatuses :=
                         (migrationStatuses acc)(customer_id (customer customerEntry) \<mapsto>
                            \<lparr>status = failed,
                             message = Some (message_or err ''Batch operation failed'')\<rparr>)\<rparr>
                   else acc))
       st selectedCustomers"

text \<open>
  The customers of a batch, the first statement of \<open>handleBatchAction\<close>:
  \<^verbatim>\<open>const selectedCustomers = currentCustomers.filter(c => selectedCustomerIds.has(c.customer.id));\<close>
\<close>

definition selectedCustomers :: "env \<Rightarrow> table_state \<Rightarrow> customer_entry list" where
  "selectedCustomers e s =
     filter (\<lambda>c. customer_id (customer c) \<in> selectedCustomerIds s) (currentCustomers e s)"

definition handleBatchAction ::
  "env \<Rightarrow> table_state \<Rightarrow> table_state \<times> event list \<times> unit outcome" where
  "handleBatchAction e s =
     (if selectedCustomers e s = [] then (s, [], Settled ())
      else
        (let selectedAction = item_at (actions e) (selectedActionIndex s);
             customerIds = map (\<lambda>c. customer_id (customer c)) (selectedCustomers e s);
             custs = map (\<lambda>c. Some (customer c)) (selectedCustomers e s)
         in if (case selectedAction of None \<Rightarrow> False | Some a \<Rightarrow> action_id a = ''migrate'')
            then
              (case executeBatchAction selectedAction customerIds custs (Some batchStatusCallback)
                      (s\<lparr>isBatchMigrationInProgress := True,
                         migrationStatuses := initialStatuses (selectedCustomers e s)\<rparr>) of
                 (st, evs, Threw err) \<Rightarrow>
                   (markRemainingFailed s (selectedCustomers e s) err st, evs, Settled ())
               | (st, evs, Settled u) \<Rightarrow> (st, evs, Settled ()))
            else
              (case executeBatchAction selectedAction customerIds custs None s of
                 (st, evs, Threw err) \<Rightarrow> (st, evs, Threw err)
               | (st, evs, Settled u) \<Rightarrow>
                   (closeMenu s (st\<lparr>isMultiSelectMode := False, selectedCustomerIds := {}\<rparr>),
                    evs, Settled ()))))"

definition handleOptionSelect ::
  "env \<Rightarrow> table_state \<Rightarrow> table_state \<times> event list \<times> unit outcome" where
  "handleOptionSelect e s =
     (if isMultiSelectMode s \<and> selectedCustomerIds s \<noteq> {} then handleBatchAction e s
      else
        (case item_at (currentCustomers e s) (selectedCustomerIndex s) of
           Some customerEntry \<Rightarrow>
             executeSelectedAction e s (customer_id (customer customerEntry))
               (customer customerEntry)
         | None \<Rightarrow> (s, [], Settled ())))"

subsection \<open>The input handler\<close>

text \<open>
  A key event as \<open>useInput\<close> delivers it: the typed text \<open>input\<close> and the flags of \<open>key\<close>
  that the handler reads (\<open>returnKey\<close> is \<open>key.return\<close>).
\<close>

record key_event =
  upArrow :: bool
  downArrow :: bool
  leftArrow :: bool
  rightArrow :: bool
  returnKey :: bool
  escape :: bool

text \<open>
  The multi-select commands \<open>m\<close>, \<open>s\<close> and \<open>a\<close> of the base table. The branch for \<open>a\<close>:
  \<^verbatim>\<open>
  const currentCustomerIds = currentCustomers.map(c => c.customer.id);
  const allSelected = currentCustomerIds.every(id => selectedCustomerIds.has(id));
  if (allSelected) {
    const newSelectedIds = new Set(selectedCustomerIds);
    currentCustomerIds.forEach(id => newSelectedIds.delete(id));
    setSelectedCustomerIds(newSelectedIds);
  } else {
    const newSelectedIds = new Set(selectedCustomerIds);
    currentCustomerIds.forEach(id => newSelectedIds.add(id));
    setSelectedCustomerIds(newSelectedIds);
  }\<close>
\<close>

definition multiSelectCommands :: "env \<Rightarrow> string \<Rightarrow> table_state \<Rightarrow> table_state \<Rightarrow> table_state" where
  "multiSelectCommands e input s st =
     (if input = ''m'' \<or> input = ''M'' then
        (let st1 = st\<lparr>isMultiSelectMode := \<not> isMultiSelectMode s\<rparr>
         in if isMultiSelectMode s then st1\<lparr>selectedCustomerIds := {}\<rparr> else st1)
      else if isMultiSelectMode s \<and> (input = ''s'' \<or> input = ''S'') then
        (case item_at (currentCustomers e s) (selectedCustomerIndex s) of
           None \<Rightarrow> st
         | Some currentCustomer \<Rightarrow>
             if customer_id (customer currentCustomer) \<in> selectedCustomerIds s
             then st\<lparr>selectedCustomerIds :=
                       selectedCustomerIds s - {customer_id (customer currentCustomer)}\<rparr>
             else st\<lparr>selectedCustomerIds :=
                       insert (customer_id (customer currentCustomer)) (selectedCustomerIds s)\<rparr>)
      else if isMultiSelectMode s \<and> (input = ''a'' \<or> input = ''A'') then
        (let currentCustomerIds = map (\<lambda>c. customer_id (customer c)) (currentCustomers e s);
             allSelected = list_all (\<lambda>i. i \<in> selectedCustomerIds s) currentCustomerIds
         in if allSelected
            then st\<lparr>selectedCustomerIds :=
                      foldl (\<lambda>newSelectedIds i. newSelectedIds - {i}) (selectedCustomerIds s)
                        currentCustomerIds\<rparr>
            else st\<lparr>selectedCustomerIds :=
                      foldl (\<lambda>newSelectedIds i. insert i newSelectedIds) (selectedCustomerIds s)
                        currentCustomerIds\<rparr>)
      else st)"

text \<open>The main table navigation, the second \<open>if\<close> chain of the base table.\<close>

definition mainNavigation :: "env \<Rightarrow> string \<Rightarrow> key_event \<Rightarrow> table_state \<Rightarrow> table_state \<Rightarrow> table_state" where
  "mainNavigation e input k s st =
     (if (input = ''l'' \<or> input = ''L'')
         \<and> item_at (currentCustomers e s) (selectedCustomerIndex s) \<noteq> None
      then st\<lparr>isFullScreenDetailsOpen := True\<rparr>
      else if upArrow k \<and> 0 < selectedCustomerIndex s
      then st\<lparr>selectedCustomerIndex := selectedCustomerIndex s - 1\<rparr>
      else if downArrow k \<and> selectedCustomerIndex s + 1 < length (currentCustomers e s)
      then st\<lparr>selectedCustomerIndex := selectedCustomerIndex s + 1\<rparr>
      else if leftArrow k
      then (if 0 < currentPage s then st\<lparr>currentPage := currentPage s - 1\<rparr> else st)
      else if rightArrow k
      then (if currentPage s + 1 < totalPages e s then st\<lparr>currentPage := currentPage s + 1\<rparr>
            else st)
      else if returnKey k \<and> item_at (currentCustomers e s) (selectedCustomerIndex s) \<noteq> None
      then openMenu st
      else if input = ''i'' \<or> input = ''I''
      then st\<lparr>hideZeroCreditUsers := \<not> hideZeroCreditUsers s\<rparr>
      else if input = ''f'' \<or> input = ''F''
      then st\<lparr>isFuzzySearchMode := True, fuzzySearchQuery := []\<rparr>
      else if input = ''c'' \<or> input = ''C''
      then st\<lparr>fuzzySearchQuery := [], currentPage := 0, selectedCustomerIndex := 0\<rparr>
      else if input = ''n'' \<or> input = ''N''
      then (if currentPage s + 1 < totalPages e s then st\<lparr>currentPage := currentPage s + 1\<rparr>
            else st)
      else if input = ''p'' \<or> input = ''P''
      then (if 0 < currentPage s then st\<lparr>currentPage := currentPage s - 1\<rparr> else st)
      else if input = ''h'' \<or> input = ''H''
      then st\<lparr>isHelpOpen := True\<rparr>
      else st)"

text \<open>
  The handler given to \<open>useInput\<close>: the state after its setter calls, and whether it has
  started \<open>handleOptionSelect\<close> (which then runs on its own, from the same render \<open>s\<close>).
  In search mode both the keys of the allow-list and all others end in \<open>return\<close>.
\<close>

definition useInput :: "env \<Rightarrow> string \<Rightarrow> key_event \<Rightarrow> table_state \<Rightarrow> table_state \<times> bool" where
  "useInput e input k s =
     (if isBatchMigrationInProgress s then
        (if escape k
         then (s\<lparr>isBatchMigrationInProgress := False, migrationStatuses := Map.empty,
                 isMultiSelectMode := False, selectedCustomerIds := {}\<rparr>, False)
         else (s, False))
      else if isHelpOpen s then
        (if escape k \<or> input = ''h'' \<or> input = ''H'' then (s\<lparr>isHelpOpen := False\<rparr>, False)
         else (s, False))
      else if isComponentDialogOpen s then
        (if escape k then (closeComponentDialog s, False) else (s, False))
      else if isFullScreenDetailsOpen s then
        (if escape k then (s\<lparr>isFullScreenDetailsOpen := False\<rparr>, False) else (s, False))
      else if isFuzzySearchMode s then
        (if escape k then (s\<lparr>isFuzzySearchMode := False, fuzzySearchQuery := []\<rparr>, False)
         else if input = ''q'' \<or> input = ''Q'' \<or> upArrow k \<or> downArrow k \<or> leftArrow k
                 \<or> rightArrow k \<or> returnKey k \<or> input = ''l'' \<or> input = ''L''
                 \<or> input = ''i'' \<or> input = ''I'' \<or> input = ''n'' \<or> input = ''N''
                 \<or> input = ''p'' \<or> input = ''P'' \<or> input = ''h'' \<or> input = ''H''
                 \<or> input = ''m'' \<or> input = ''M''
         then (s, False)
         else (s, False))
      else if isMenuOpen s then
        (if \<not> isLoading s then
           (if upArrow k then (navigateUp s s, False)
            else if downArrow k then (navigateDown e s s, False)
            else if returnKey k then (s, True)
            else if escape k then (closeMenu s s, False)
            else (s, False))
         else (s, False))
      else (mainNavigation e input k s (multiSelectCommands e input s s), False))"

text \<open>
  The two effects that reset the cursor: the one on \<open>currentPage\<close> and the one on
  \<open>hideZeroCreditUsers\<close>, run after a render in which the cell has changed.
\<close>

definition runEffects :: "table_state \<Rightarrow> table_state \<Rightarrow> table_state" where
  "runEffects old new =
     (let st1 = (if currentPage new \<noteq> currentPage old then new\<lparr>selectedCustomerIndex := 0\<rparr>
                 else new)
      in if hideZeroCreditUsers new \<noteq> hideZeroCreditUsers old
         then st1\<lparr>currentPage := 0, selectedCustomerIndex := 0\<rparr>
         else st1)"

text \<open>The state of the table once a key event has been handled and rendered.\<close>

definition press :: "env \<Rightarrow> string \<Rightarrow> key_event \<Rightarrow> table_state \<Rightarrow> table_state" where
  "press e input k s = runEffects s (fst (useInput e input k s))"

definition no_key :: key_event where
  "no_key = \<lparr>upArrow = False, downArrow = False, leftArrow = False, rightArrow = False,
             returnKey = False, escape = False\<rparr>"

section \<open>Notions used in the statements\<close>

text \<open>The credit configurations of a credit system: the primary one, then the secondary ones.\<close>

definition all_credit_configs :: "credit_system_config \<Rightarrow> credit_config list" where
  "all_credit_configs cfg = primary cfg # (case secondary cfg of None \<Rightarrow> [] | Some cfgs \<Rightarrow> cfgs)"

text \<open>No overlay is open: the key goes to the base table.\<close>

definition base_navigation :: "table_state \<Rightarrow> bool" where
  "base_navigation s =
     (\<not> isBatchMigrationInProgress s \<and> \<not> isHelpOpen s \<and> \<not> isComponentDialogOpen s
      \<and> \<not> isFullScreenDetailsOpen s \<and> \<not> isFuzzySearchMode s \<and> \<not> isMenuOpen s)"

text \<open>The identifiers on the current page.\<close>

definition page_ids :: "env \<Rightarrow> table_state \<Rightarrow> string set" where
  "page_ids e s = set (map (\<lambda>c. customer_id (customer c)) (currentCustomers e s))"

section \<open>Example data\<close>

text \<open>The token credit system of the source, and variants of it with other divisors.\<close>

definition tokens_config :: "jsnum \<Rightarrow> credit_system_config" where
  "tokens_config d =
     \<lparr>primary = \<lparr>key = ''ai-tokens'', displayName = ''Tokens'', currency = [], divisor = d\<rparr>,
      secondary = None\<rparr>"

definition multi_config :: credit_system_config where
  "multi_config =
     \<lparr>primary = \<lparr>key = ''gpu-credit'', displayName = ''GPU Credits'', currency = ''$'',
                 divisor = Fin 100\<rparr>,
      secondary = Some [\<lparr>key = ''cpu-credit'', displayName = ''CPU Credits'', currency = ''$'',
                         divisor = Fin 100\<rparr>,
                        \<lparr>key = ''storage-credit'', displayName = ''Storage'', currency = ''$'',
                         divisor = Fin 100\<rparr>]\<rparr>"

text \<open>A customer with one feature \<open>ai-tokens\<close> of the given balance, and the given products.\<close>

definition token_customer :: "string \<Rightarrow> jsnum option \<Rightarrow> product list \<Rightarrow> customer" where
  "token_customer i b ps =
     \<lparr>customer_id = i, customer_name = None, customer_email = None, products = ps,
      features = [''ai-tokens'' \<mapsto> \<lparr>balance = b\<rparr>]\<rparr>"

definition gpu_customer :: customer where
  "gpu_customer =
     \<lparr>customer_id = ''g'', customer_name = Some ''Grace'', customer_email = None, products = [],
      features = [''gpu-credit'' \<mapsto> \<lparr>balance = Some (Fin (- 250))\<rparr>,
                  ''cpu-credit'' \<mapsto> \<lparr>balance = Some (Fin 40)\<rparr>,
                  ''storage-credit'' \<mapsto> \<lparr>balance = None\<rparr>]\<rparr>"

definition plan :: "string \<Rightarrow> product" where
  "plan i = \<lparr>product_id = Some i, product_name = None, product_status = ''active'',
             product_group = ''plan''\<rparr>"

definition example_env :: "customer list \<Rightarrow> nat option \<Rightarrow> action_option list \<Rightarrow> env" where
  "example_env cs n as =
     \<lparr>customers = cs,
      livePlanPrices = [''pro'' \<mapsto> Fin 10, ''odd'' \<mapsto> Fin (- 7)],
      ui_itemsPerPage = n, creditSystem = tokens_config (Fin 1), actions = as,
      fuzzysort_single = (\<lambda>q t. None)\<rparr>"

text \<open>Two customers: plan price 10 with 1 credit used, plan price -7 with 5 credits used.\<close>

definition priced_env :: env where
  "priced_env =
     example_env [token_customer ''x'' (Some (Fin (- 1))) [plan ''pro''],
                  token_customer ''y'' (Some (Fin (- 5))) [plan ''odd'']] None []"

text \<open>Three customers without a plan, with 300, 200 and 100 credits used.\<close>

definition three_customers :: "customer list" where
  "three_customers =
     [token_customer ''a'' (Some (Fin (- 300))) [], token_customer ''b'' (Some (Fin (- 200))) [],
      token_customer ''c'' (Some (Fin (- 100))) []]"

definition escape_key :: key_event where
  "escape_key = no_key\<lparr>escape := True\<rparr>"

definition return_key :: key_event where
  "return_key = no_key\<lparr>returnKey := True\<rparr>"

text \<open>
  The progress overlay is open on a batch of one customer, over the action menu from which
  the batch was started.
\<close>

definition progress_state :: table_state where
  "progress_state =
     initial_state\<lparr>isBatchMigrationInProgress := True, isMultiSelectMode := True,
                    selectedCustomerIds := {''a''}, isMenuOpen := True,
                    migrationStatuses := [''a'' \<mapsto> \<lparr>status = in_progress,
                                                    message = Some ''Starting''\<rparr>]\<rparr>"

definition hide_zero_state :: table_state where
  "hide_zero_state = initial_state\<lparr>hideZeroCreditUsers := True\<rparr>"

text \<open>Multi-select mode with a given selection, on the first page.\<close>

definition selecting :: "string set \<Rightarrow> table_state" where
  "selecting ids = initial_state\<lparr>isMultiSelectMode := True, selectedCustomerIds := ids\<rparr>"

text \<open>
  Notions for the fallback loop. Position \<open>i\<close> is valid when its id is not empty and its
  record is there. \<open>call_result\<close> is what the loop has of the handler call for a position
  once it goes on, \<open>left_in_flight\<close> says that the call is left pending, and \<open>first_throw\<close>
  is the first valid position whose call throws or whose awaited promise rejects, if
  there is one.
\<close>

definition valid_position :: "string list \<Rightarrow> customer option list \<Rightarrow> nat \<Rightarrow> bool" where
  "valid_position customerIds custs i =
     (customerIds ! i \<noteq> [] \<and> (case item_at custs i of Some (Some c) \<Rightarrow> True | _ \<Rightarrow> False))"

definition call_result ::
  "action_option \<Rightarrow> string list \<Rightarrow> customer option list \<Rightarrow> nat \<Rightarrow> element option outcome" where
  "call_result a customerIds custs i =
     await_if_promise (snd (handler a (customerIds ! i) (the (custs ! i))))"

definition left_in_flight :: "action_option \<Rightarrow> string list \<Rightarrow> customer option list \<Rightarrow> nat \<Rightarrow> bool" where
  "left_in_flight a customerIds custs i =
     left_pending (snd (handler a (customerIds ! i) (the (custs ! i))))"

definition throws_at :: "action_option \<Rightarrow> string list \<Rightarrow> customer option list \<Rightarrow> nat \<Rightarrow> bool" where
  "throws_at a customerIds custs i =
     (case call_result a customerIds custs i of Threw err \<Rightarrow> True | Settled v \<Rightarrow> False)"

definition first_throw :: "action_option \<Rightarrow> string list \<Rightarrow> customer option list \<Rightarrow> nat option" where
  "first_throw a customerIds custs =
     find (\<lambda>i. valid_position customerIds custs i \<and> throws_at a customerIds custs i)
       [0..<length customerIds]"

text \<open>
  The handler calls of a run, in order, with position and id passed; the positions
  reported as invalid, in order; and the check that never two calls are in flight: a call
  is made only when no call is in flight, and the call that is over is the one in flight.
\<close>

fun handler_calls :: "event list \<Rightarrow> (nat \<times> string) list" where
  "handler_calls [] = []"
| "handler_calls (HandlerCalled i c # evs) = (i, c) # handler_calls evs"
| "handler_calls (ev # evs) = handler_calls evs"

fun skipped :: "event list \<Rightarrow> nat list" where
  "skipped [] = []"
| "skipped (InvalidCustomerData i # evs) = i # skipped evs"
| "skipped (ev # evs) = skipped evs"

fun one_at_a_time :: "nat option \<Rightarrow> event list \<Rightarrow> bool" where
  "one_at_a_time cur [] = True"
| "one_at_a_time cur (HandlerCalled i c # evs) = (cur = None \<and> one_at_a_time (Some i) evs)"
| "one_at_a_time cur (HandlerSettled i # evs) = (cur = Some i \<and> one_at_a_time None evs)"
| "one_at_a_time cur (ev # evs) = one_at_a_time cur evs"

text \<open>The batch is rejected with what a handler call has thrown.\<close>

definition same_throw :: "unit outcome \<Rightarrow> element option outcome \<Rightarrow> bool" where
  "same_throw r h = (case r of Threw err \<Rightarrow> h = Threw err | Settled u \<Rightarrow> False)"

text \<open>
  A \<open>migrate\<close> action without a batch handler: the call for \<open>a\<close> reports success, the
  call for \<open>b\<close> reports that it starts and then throws, every other call just returns.
\<close>

definition migrate_action :: action_option where
  "migrate_action =
     \<lparr>action_id = ''migrate'', label = ''Migrate'',
      handler = (\<lambda>i c. if i = ''a''
                       then ([''Migration completed successfully''], Settled (Value None))
                       else if i = ''b'' then ([''Starting''], Threw (Error ''boom''))
                       else ([], Settled (Value None))),
      batchHandler = None\<rparr>"

text \<open>Four positions for the fallback loop; the record of the second one is missing.\<close>

definition fallback_customers :: "customer option list" where
  "fallback_customers =
     [Some (token_customer ''a'' None []), None, Some (token_customer ''b'' None []),
      Some (token_customer ''c'' None [])]"

text \<open>The identifiers of a batch run: those of the selected customers on the current page.\<close>

definition selected_ids :: "env \<Rightarrow> table_state \<Rightarrow> string list" where
  "selected_ids e s = map (\<lambda>c. customer_id (customer c)) (selectedCustomers e s)"

text \<open>A sequence of key events, each handled and rendered before the next.\<close>

definition presses :: "env \<Rightarrow> (string \<times> key_event) list \<Rightarrow> table_state \<Rightarrow> table_state" where
  "presses e ks s = foldl (\<lambda>st (input, k). press e input k st) s ks"

definition right_key :: key_event where
  "right_key = no_key\<lparr>rightArrow := True\<rparr>"

definition down_key :: key_event where
  "down_key = no_key\<lparr>downArrow := True\<rparr>"

text \<open>
  The three customers on one page with the \<open>migrate\<close> action above. The operator turns
  multi-select on, selects the whole page and opens the action menu; \<open>at_throw\<close> is the
  batch call that the confirm key then starts, up to the point where it throws.
\<close>

definition migrate_env :: env where
  "migrate_env = example_env three_customers None [migrate_action]"

definition batch_ready :: table_state where
  "batch_ready =
     presses migrate_env [(''m'', no_key), (''a'', no_key), ([], return_key)] initial_state"

definition at_throw :: "table_state \<times> event list \<times> unit outcome" where
  "at_throw =
     executeBatchAction (Some migrate_action) [''a'', ''b'', ''c''] (map Some three_customers)
       (Some batchStatusCallback)
       (batch_ready\<lparr>isBatchMigrationInProgress := True,
                    migrationStatuses := initialStatuses (selectedCustomers migrate_env batch_ready)\<rparr>)"

text \<open>
  The three customers on pages of two, with an action that has no batch handler. The
  operator selects \<open>a\<close> on the first page, goes to the second page, selects \<open>c\<close> there and
  opens the action menu.
\<close>

definition notify_action :: action_option where
  "notify_action =
     \<lparr>action_id = ''notify'', label = ''Notify'', handler = (\<lambda>i c. ([], Settled (Value None))),
      batchHandler = None\<rparr>"

definition paged_env :: env where
  "paged_env = example_env three_customers (Some 2) [notify_action]"

definition two_pages_selected :: table_state where
  "two_pages_selected =
     presses paged_env
       [(''m'', no_key), (''s'', no_key), ([], right_key), (''s'', no_key), ([], return_key)]
       initial_state"

text \<open>A \<open>migrate\<close> action whose batch handler reports on an id it was not given.\<close>

definition chatty_action :: action_option where
  "chatty_action =
     \<lparr>action_id = ''migrate'', label = ''Migrate'', handler = (\<lambda>i c. ([], Settled (Value None))),
      batchHandler = Some (\<lambda>ids cs. ([(''zzz'', ''working'')], Settled ()))\<rparr>"

definition chatty_env :: env where
  "chatty_env = example_env three_customers None [chatty_action]"

definition one_selected :: table_state where
  "one_selected = (selecting {''a''})\<lparr>isMenuOpen := True\<rparr>"

text \<open>
  Two runs of a \<open>migrate\<close> action that has reported nothing yet. The first run is started
  on \<open>a\<close> and its overlay is closed with escape. Then the operator closes the menu, turns
  multi-select on again, selects \<open>b\<close> and starts the second run.
\<close>

definition quiet_env :: env where
  "quiet_env =
     example_env three_customers None
       [\<lparr>action_id = ''migrate'', label = ''Migrate'', handler = (\<lambda>i c. ([], Settled (Value None))),
         batchHandler = None\<rparr>]"

definition first_run :: table_state where
  "first_run = fst (handleBatchAction quiet_env one_selected)"

definition first_run_closed :: table_state where
  "first_run_closed = press quiet_env [] escape_key first_run"

definition second_run :: table_state where
  "second_run =
     fst (handleBatchAction quiet_env
            (presses quiet_env
               [([], escape_key), (''m'', no_key), ([], down_key), (''s'', no_key), ([], return_key)]
               first_run_closed))"

text \<open>
  Two actions without a batch handler. The handler of the first is asynchronous: for \<open>a\<close>
  it reports \<open>done\<close> and its promise resolves, for \<open>b\<close> its promise rejects with \<open>boom\<close>. The
  handler of the second returns, for \<open>a\<close>, a promise-like object that is not a native
  promise and that will reject with \<open>boom\<close>.
\<close>

definition async_action :: action_option where
  "async_action =
     \<lparr>action_id = ''sync'', label = ''Sync'',
      handler = (\<lambda>i c. if i = ''a'' then ([''done''], Settled (Promise (Settled None)))
                       else if i = ''b'' then ([], Settled (Promise (Threw (Error ''boom''))))
                       else ([], Settled (Value None))),
      batchHandler = None\<rparr>"

definition thenable_action :: action_option where
  "thenable_action =
     \<lparr>action_id = ''sync'', label = ''Sync'',
      handler = (\<lambda>i c. if i = ''a'' then ([], Settled (Thenable (Threw (Error ''boom''))))
                       else ([], Settled (Value None))),
      batchHandler = None\<rparr>"

section \<open>The credit amounts\<close>

lemma js_ge_zero_iff: "js_ge x (Fin 0) \<longleftrightarrow> x = PosInf \<or> (\<exists>q\<ge>0. x = Fin q)"
  by (cases x) (auto simp: js_ge_def)

lemma Math_max_zero_nonneg: "x \<noteq> NaN \<Longrightarrow> js_ge (Math_max (Fin 0) x) (Fin 0)"
  by (cases x) (auto simp: Math_max_def js_ge_def)

lemma js_div_not_NaN: "b \<noteq> NaN \<Longrightarrow> d \<noteq> 0 \<Longrightarrow> js_div (js_neg b) (Fin d) \<noteq> NaN"
  by (cases b) auto

lemma getCreditBalance_nonneg:
  assumes "d \<noteq> 0" and "\<forall>f\<in>ran (features c). balance f \<noteq> Some NaN"
  shows "js_ge (getCreditBalance c k (Fin d)) (Fin 0)"
proof (cases "features c k")
  case None
  then show ?thesis by (simp add: getCreditBalance_def js_ge_def)
next
  case (Some f)
  then have "f \<in> ran (features c)" by (auto simp: ran_def)
  with assms have "balance_or_zero f \<noteq> NaN"
    by (auto simp: balance_or_zero_def split: option.splits)
  with assms(1) Some show ?thesis
    by (simp add: getCreditBalance_def Math_max_zero_nonneg js_div_not_NaN)
qed

lemma js_add_nonneg: "js_ge a (Fin 0) \<Longrightarrow> js_ge b (Fin 0) \<Longrightarrow> js_ge (js_add a b) (Fin 0)"
  by (auto simp: js_ge_zero_iff)

lemma foldl_js_add_nonneg:
  "js_ge acc (Fin 0) \<Longrightarrow> \<forall>sc\<in>set scs. js_ge (amount sc) (Fin 0)
   \<Longrightarrow> js_ge (foldl (\<lambda>sum sc. js_add sum (amount sc)) acc scs) (Fin 0)"
  by (induction scs arbitrary: acc) (simp_all add: js_add_nonneg)

lemma primary_amount_eq:
  "amount (primary_credit (getCustomerCredits c cfg))
   = getCreditBalance c (key (primary cfg)) (divisor (primary cfg))"
  by (simp add: getCustomerCredits_def getCreditBalance_def Let_def)

lemma secondary_amounts_eq:
  "map amount (secondary_credits (getCustomerCredits c cfg))
   = map (\<lambda>cc. getCreditBalance c (key cc) (divisor cc))
       (case secondary cfg of None \<Rightarrow> [] | Some cfgs \<Rightarrow> cfgs)"
  by (simp add: getCustomerCredits_def getCreditBalance_def Let_def comp_def split: option.splits)

lemma total_eq:
  "total (getCustomerCredits c cfg)
   = js_add (amount (primary_credit (getCustomerCredits c cfg)))
       (foldl (\<lambda>sum sc. js_add sum (amount sc)) (Fin 0)
          (secondary_credits (getCustomerCredits c cfg)))"
  by (simp add: getCustomerCredits_def Let_def)

lemma credits_nonneg:
  assumes div: "\<forall>cc\<in>set (all_credit_configs cfg). \<exists>d. divisor cc = Fin d \<and> d \<noteq> 0"
      and bal: "\<forall>f\<in>ran (features c). balance f \<noteq> Some NaN"
  shows "js_ge (amount (primary_credit (getCustomerCredits c cfg))) (Fin 0)"
    and "\<forall>sc\<in>set (secondary_credits (getCustomerCredits c cfg)). js_ge (amount sc) (Fin 0)"
    and "js_ge (total (getCustomerCredits c cfg)) (Fin 0)"
proof -
  let ?R = "getCustomerCredits c cfg"
  have one: "js_ge (getCreditBalance c (key cc) (divisor cc)) (Fin 0)"
    if "cc \<in> set (all_credit_configs cfg)" for cc
  proof -
    from div that obtain d where "divisor cc = Fin d" "d \<noteq> 0" by blast
    with bal show ?thesis by (simp add: getCreditBalance_nonneg)
  qed
  show p: "js_ge (amount (primary_credit ?R)) (Fin 0)"
    unfolding primary_amount_eq by (rule one) (simp add: all_credit_configs_def)
  have "\<forall>x\<in>set (map amount (secondary_credits ?R)). js_ge x (Fin 0)"
    unfolding secondary_amounts_eq using one
    by (auto simp: all_credit_configs_def split: option.splits)
  then show s: "\<forall>sc\<in>set (secondary_credits ?R). js_ge (amount sc) (Fin 0)"
    by simp
  have "js_ge (foldl (\<lambda>sum sc. js_add sum (amount sc)) (Fin 0) (secondary_credits ?R)) (Fin 0)"
    using s by (intro foldl_js_add_nonneg) (simp_all add: js_ge_zero_iff)
  with p show "js_ge (total ?R) (Fin 0)"
    unfolding total_eq by (rule js_add_nonneg)
qed

lemma amount_formula:
  "getCreditBalance c k d =
     (case features c k of
        None \<Rightarrow> Fin 0
      | Some f \<Rightarrow> Math_max (Fin 0)
                   (js_div (js_neg (case balance f of None \<Rightarrow> Fin 0 | Some b \<Rightarrow> b)) d))"
  by (simp add: getCreditBalance_def balance_or_zero_def split: option.splits)

lemma amount_without_balance:
  "x \<noteq> 0 \<Longrightarrow> features c k = Some f \<Longrightarrow> balance f = None \<Longrightarrow> getCreditBalance c k (Fin x) = Fin 0"
  by (simp add: getCreditBalance_def balance_or_zero_def Math_max_def)

text \<open>
  C10, as amended. When every configured divisor is a finite number other than zero and no
  balance of the customer is NaN, \<open>getCustomerCredits\<close> returns a primary amount that is
  at least 0, secondary amounts that are each at least 0, and a total, their sum, that is
  at least 0. Each amount is 0 for a missing feature and for a feature without a balance,
  and \<open>max(0, -balance / divisor)\<close> otherwise.
\<close>

theorem getCustomerCredits_amounts:
  assumes "\<forall>cc\<in>set (all_credit_configs cfg). \<exists>d. divisor cc = Fin d \<and> d \<noteq> 0"
      and "\<forall>f\<in>ran (features c). balance f \<noteq> Some NaN"
  shows "js_ge (amount (primary_credit (getCustomerCredits c cfg))) (Fin 0)
         \<and> (\<forall>sc\<in>set (secondary_credits (getCustomerCredits c cfg)). js_ge (amount sc) (Fin 0))
         \<and> js_ge (total (getCustomerCredits c cfg)) (Fin 0)
         \<and> total (getCustomerCredits c cfg)
             = js_add (amount (primary_credit (getCustomerCredits c cfg)))
                 (foldl (\<lambda>sum sc. js_add sum (amount sc)) (Fin 0)
                    (secondary_credits (getCustomerCredits c cfg)))
         \<and> map amount (primary_credit (getCustomerCredits c cfg)
                        # secondary_credits (getCustomerCredits c cfg))
             = map (\<lambda>cc. case features c (key cc) of
                            None \<Rightarrow> Fin 0
                          | Some f \<Rightarrow>
                              (case balance f of
                                 None \<Rightarrow> Fin 0
                               | Some b \<Rightarrow> Math_max (Fin 0) (js_div (js_neg b) (divisor cc))))
                 (all_credit_configs cfg)"
proof -
  have "getCreditBalance c (key cc) (divisor cc)
        = (case features c (key cc) of
             None \<Rightarrow> Fin 0
           | Some f \<Rightarrow>
               (case balance f of
                  None \<Rightarrow> Fin 0
                | Some b \<Rightarrow> Math_max (Fin 0) (js_div (js_neg b) (divisor cc))))"
    if "cc \<in> set (all_credit_configs cfg)" for cc
  proof -
    from assms(1) that obtain d where "divisor cc = Fin d" "d \<noteq> 0" by blast
    then show ?thesis
      by (simp add: amount_formula Math_max_def split: option.splits)
  qed
  then have "map (\<lambda>cc. getCreditBalance c (key cc) (divisor cc)) (all_credit_configs cfg)
             = map (\<lambda>cc. case features c (key cc) of
                            None \<Rightarrow> Fin 0
                          | Some f \<Rightarrow>
                              (case balance f of
                                 None \<Rightarrow> Fin 0
                               | Some b \<Rightarrow> Math_max (Fin 0) (js_div (js_neg b) (divisor cc))))
                 (all_credit_configs cfg)"
    by simp
  moreover have "map amount (primary_credit (getCustomerCredits c cfg)
                        # secondary_credits (getCustomerCredits c cfg))
        = map (\<lambda>cc. getCreditBalance c (key cc) (divisor cc)) (all_credit_configs cfg)"
    by (simp add: primary_amount_eq secondary_amounts_eq all_credit_configs_def)
  ultimately show ?thesis
    using credits_nonneg [OF assms] total_eq [of c cfg] by simp
qed

lemma multi_config_divisors:
  "\<forall>cc\<in>set (all_credit_configs multi_config). \<exists>d. divisor cc = Fin d \<and> d \<noteq> 0"
  by (simp add: all_credit_configs_def multi_config_def)

lemma gpu_customer_balances: "\<forall>f\<in>ran (features gpu_customer). balance f \<noteq> Some NaN"
  by (auto simp: gpu_customer_def ran_def split: if_splits)

text \<open>
  The multi-credit system of the source on a customer who has used 250 GPU credits, holds
  a positive CPU balance and has a storage feature without a balance.
\<close>

theorem getCustomerCredits_amounts_witness:
  "js_ge (total (getCustomerCredits gpu_customer multi_config)) (Fin 0)
   \<and> map amount (primary_credit (getCustomerCredits gpu_customer multi_config)
                  # secondary_credits (getCustomerCredits gpu_customer multi_config))
     = [Fin (5 / 2), Fin 0, Fin 0]"
proof -
  note t = getCustomerCredits_amounts [OF multi_config_divisors gpu_customer_balances]
  have "map (\<lambda>cc. case features gpu_customer (key cc) of
                     None \<Rightarrow> Fin 0
                   | Some f \<Rightarrow>
                       (case balance f of
                          None \<Rightarrow> Fin 0
                        | Some b \<Rightarrow> Math_max (Fin 0) (js_div (js_neg b) (divisor cc))))
          (all_credit_configs multi_config)
        = [Fin (5 / 2), Fin 0, Fin 0]"
    by (simp add: all_credit_configs_def multi_config_def gpu_customer_def Math_max_def)
  moreover from t have "js_ge (total (getCustomerCredits gpu_customer multi_config)) (Fin 0)"
    by (elim conjE)
  moreover from t
  have "map amount (primary_credit (getCustomerCredits gpu_customer multi_config)
                    # secondary_credits (getCustomerCredits gpu_customer multi_config))
        = map (\<lambda>cc. case features gpu_customer (key cc) of
                     None \<Rightarrow> Fin 0
                   | Some f \<Rightarrow>
                       (case balance f of
                          None \<Rightarrow> Fin 0
                        | Some b \<Rightarrow> Math_max (Fin 0) (js_div (js_neg b) (divisor cc))))
          (all_credit_configs multi_config)"
    by (elim conjE)
  ultimately show ?thesis by (intro conjI) (assumption, rule trans)
qed

text \<open>
  C10 as stated fails for a divisor of zero: a feature without a balance gives
  \<open>-0 / 0\<close>, which is NaN, \<open>Math.max(0, NaN)\<close> is NaN, and NaN is not at least 0.
\<close>

theorem getCustomerCredits_nan_counterexample:
  "amount (primary_credit (getCustomerCredits (token_customer ''n'' None []) (tokens_config (Fin 0))))
     = NaN
   \<and> \<not> js_ge (amount (primary_credit
                 (getCustomerCredits (token_customer ''n'' None []) (tokens_config (Fin 0)))))
          (Fin 0)
   \<and> \<not> js_ge (total (getCustomerCredits (token_customer ''n'' None []) (tokens_config (Fin 0))))
          (Fin 0)"
  by (simp add: getCustomerCredits_def token_customer_def tokens_config_def balance_or_zero_def
      Math_max_def js_ge_def)

section \<open>The status-message classifier\<close>

lemma startsWith_iff: "startsWith s t \<longleftrightarrow> (\<exists>r. s = t @ r)"
  by (simp add: startsWith_def prefix_def)

lemma includes_str_iff: "includes_str s t \<longleftrightarrow> (\<exists>p r. s = p @ t @ r)"
  by (simp add: includes_str_def sublist_def)

lemma finalStatus_examples:
  "finalStatus ''ERROR: timeout'' = failed"
  "finalStatus ''Migration completed successfully'' = completed"
  "finalStatus ''retrying, attempt 2'' = in_progress"
  by code_simp+

text \<open>
  C4. The classifier yields \<open>failed\<close> exactly for the messages that start with \<open>ERROR:\<close> or
  contain \<open>failed\<close>; \<open>completed\<close> exactly for those that are not classified \<open>failed\<close> and
  contain \<open>completed successfully\<close> or \<open>No migration required\<close>; and \<open>in_progress\<close> for all
  others. The three messages of the specification are classified as it says.
\<close>

theorem finalStatus_classifier:
  "(finalStatus m = failed \<longleftrightarrow> (\<exists>r. m = ''ERROR:'' @ r) \<or> (\<exists>p r. m = p @ ''failed'' @ r))
   \<and> (finalStatus m = completed \<longleftrightarrow>
        finalStatus m \<noteq> failed
        \<and> ((\<exists>p r. m = p @ ''completed successfully'' @ r)
           \<or> (\<exists>p r. m = p @ ''No migration required'' @ r)))
   \<and> (finalStatus m = in_progress \<longleftrightarrow> finalStatus m \<noteq> failed \<and> finalStatus m \<noteq> completed)
   \<and> finalStatus ''ERROR: timeout'' = failed
   \<and> finalStatus ''Migration completed successfully'' = completed
   \<and> finalStatus ''retrying, attempt 2'' = in_progress"
  unfolding startsWith_iff [symmetric] includes_str_iff [symmetric]
  by (simp add: finalStatus_examples) (simp add: finalStatus_def)

text \<open>A message that contains \<open>failed\<close> in the middle, and one that only mentions success.\<close>

theorem finalStatus_classifier_witness:
  "finalStatus ''step 2 failed, retrying'' = failed
   \<and> finalStatus ''No migration required for this plan'' = completed"
proof -
  have "''step 2 failed, retrying'' = ''step 2 '' @ ''failed'' @ '', retrying''" by simp
  then have 1: "finalStatus ''step 2 failed, retrying'' = failed"
    using finalStatus_classifier [of "''step 2 failed, retrying''"] by blast
  have "finalStatus ''No migration required for this plan'' \<noteq> failed" by code_simp
  moreover have "''No migration required for this plan''
                 = [] @ ''No migration required'' @ '' for this plan''" by simp
  ultimately have "finalStatus ''No migration required for this plan'' = completed"
    using finalStatus_classifier [of "''No migration required for this plan''"] by blast
  with 1 show ?thesis by simp
qed

section \<open>The input handler\<close>

text \<open>
  C7. While the batch-progress overlay is open, a key event other than escape leaves the
  whole state of the table as it is; escape empties the status map, turns multi-select
  mode off, empties the selection and closes the overlay, and changes nothing else. No
  key starts an action.
\<close>

theorem batch_progress_owns_input:
  assumes "isBatchMigrationInProgress s"
  shows "press e input k s =
           (if escape k
            then s\<lparr>migrationStatuses := Map.empty, isMultiSelectMode := False,
                   selectedCustomerIds := {}, isBatchMigrationInProgress := False\<rparr>
            else s)
         \<and> \<not> snd (useInput e input k s)"
  using assms by (simp add: press_def useInput_def runEffects_def)

theorem batch_progress_owns_input_witness:
  "isBatchMigrationInProgress progress_state
   \<and> press (example_env three_customers None []) ''m'' return_key progress_state = progress_state
   \<and> press (example_env three_customers None []) [] escape_key progress_state
     = progress_state\<lparr>migrationStatuses := Map.empty, isMultiSelectMode := False,
                       selectedCustomerIds := {}, isBatchMigrationInProgress := False\<rparr>"
proof -
  have p: "isBatchMigrationInProgress progress_state"
    by (simp add: progress_state_def)
  have "\<not> escape return_key" and "escape escape_key"
    by (simp_all add: return_key_def escape_key_def no_key_def)
  with batch_progress_owns_input [OF p, of "example_env three_customers None []" "''m''" return_key]
    batch_progress_owns_input [OF p, of "example_env three_customers None []" "[]" escape_key]
  show ?thesis using p by simp
qed


section \<open>The filter and sort pipeline\<close>

lemma length_insert_cmp: "length (insert_cmp cmp x ys) = Suc (length ys)"
  by (induction ys) simp_all

lemma length_Array_sort: "length (Array_sort cmp xs) = length xs"
  by (induction xs) (simp_all add: Array_sort_def length_insert_cmp)

lemma set_insert_cmp: "set (insert_cmp cmp x ys) = insert x (set ys)"
  by (induction ys) auto

lemma set_Array_sort: "set (Array_sort cmp xs) = set xs"
  by (induction xs) (simp_all add: Array_sort_def set_insert_cmp)

lemma js_gt_sub: "a \<noteq> NaN \<Longrightarrow> b \<noteq> NaN \<Longrightarrow> js_gt (js_sub b a) (Fin 0) = js_gt b a"
  by (cases a; cases b) (simp_all add: js_sub_def)

lemma js_ge_total: "a \<noteq> NaN \<Longrightarrow> b \<noteq> NaN \<Longrightarrow> \<not> js_gt b a \<Longrightarrow> js_ge a b"
  by (cases a; cases b) (auto simp: js_ge_def)

lemma js_gt_imp_ge: "js_gt a b \<Longrightarrow> js_ge a b"
  by (cases a; cases b) (simp_all add: js_ge_def)

lemma js_ge_trans: "js_ge a b \<Longrightarrow> js_ge b c \<Longrightarrow> js_ge a c"
  by (cases a; cases b; cases c) (auto simp: js_ge_def)

lemma sorted_insert_cmp:
  assumes "sorted_wrt (\<lambda>a b. js_ge (f a) (f b)) ys" and "f x \<noteq> NaN" and "\<forall>y\<in>set ys. f y \<noteq> NaN"
  shows "sorted_wrt (\<lambda>a b. js_ge (f a) (f b)) (insert_cmp (\<lambda>a b. js_sub (f b) (f a)) x ys)"
  using assms
proof (induction ys)
  case Nil
  then show ?case by simp
next
  case (Cons y ys)
  show ?case
  proof (cases "js_gt (f y) (f x)")
    case True
    with Cons show ?thesis
      by (auto simp: js_gt_sub set_insert_cmp js_gt_imp_ge)
  next
    case False
    with Cons.prems have xy: "js_ge (f x) (f y)" by (simp add: js_ge_total)
    with Cons.prems have "\<forall>z\<in>set ys. js_ge (f x) (f z)"
      by (auto intro: js_ge_trans)
    with False xy Cons.prems show ?thesis by (simp add: js_gt_sub)
  qed
qed

lemma sorted_Array_sort:
  "\<forall>x\<in>set xs. f x \<noteq> NaN
   \<Longrightarrow> sorted_wrt (\<lambda>a b. js_ge (f a) (f b)) (Array_sort (\<lambda>a b. js_sub (f b) (f a)) xs)"
proof (induction xs)
  case Nil
  then show ?case by (simp add: Array_sort_def)
next
  case (Cons x xs)
  then have "sorted_wrt (\<lambda>a b. js_ge (f a) (f b))
               (insert_cmp (\<lambda>a b. js_sub (f b) (f a)) x (Array_sort (\<lambda>a b. js_sub (f b) (f a)) xs))"
    by (intro sorted_insert_cmp) (simp_all add: set_Array_sort)
  then show ?case by (simp add: Array_sort_def)
qed

lemma set_sortedCustomers: "set (sortedCustomers e s) \<subseteq> entry_of e ` set (customers e)"
  by (auto simp: sortedCustomers_def set_Array_sort)

lemma hidden_zero:
  "hideZeroCreditUsers s \<Longrightarrow> a \<in> set (sortedCustomers e s) \<Longrightarrow> js_gt (creditsUsed a) (Fin 0)"
  by (auto simp: sortedCustomers_def set_Array_sort)

lemma totalValue_entry:
  "a \<in> set (sortedCustomers e s) \<Longrightarrow> totalValue a = js_add (planPrice a) (creditsUsed a)"
  using set_sortedCustomers [of e s] by (auto simp: entry_of_def Let_def)

lemma js_add_pos: "js_ge p (Fin 0) \<Longrightarrow> js_gt c (Fin 0) \<Longrightarrow> js_gt (js_add p c) (Fin 0)"
  by (cases p; cases c) (auto simp: js_ge_def)

lemma compare_blank:
  "trim q = [] \<Longrightarrow> compare_entries e q = (\<lambda>a b. js_sub (totalValue b) (totalValue a))"
  by (simp add: compare_entries_def fun_eq_iff)

text \<open>
  C8, as amended. The view is never longer than the source list. When \<open>hideZero\<close> is on,
  every entry of the view has credits used (the credit total) greater than 0, the value
  the zero filter tests; its total value, plan price plus credits used, is then greater
  than 0 whenever its plan price is at least 0. When the query is blank and no total value
  in the view is NaN, the view is in descending order of total value.
\<close>

theorem view_postconditions:
  "length (sortedCustomers e s) \<le> length (customers e)
   \<and> (hideZeroCreditUsers s \<longrightarrow>
        (\<forall>a\<in>set (sortedCustomers e s).
           js_gt (creditsUsed a) (Fin 0)
           \<and> (js_ge (planPrice a) (Fin 0) \<longrightarrow> js_gt (totalValue a) (Fin 0))))
   \<and> (trim (fuzzySearchQuery s) = [] \<and> (\<forall>a\<in>set (sortedCustomers e s). totalValue a \<noteq> NaN) \<longrightarrow>
        sorted_wrt (\<lambda>a b. js_ge (totalValue a) (totalValue b)) (sortedCustomers e s))"
proof (intro conjI impI ballI)
  have "length (sortedCustomers e s) \<le> length (map (entry_of e) (customers e))"
    unfolding sortedCustomers_def length_Array_sort
    by (rule order_trans [OF length_filter_le] order_trans [OF length_filter_le order_refl])+
  then show "length (sortedCustomers e s) \<le> length (customers e)" by simp
next
  fix a assume "hideZeroCreditUsers s" "a \<in> set (sortedCustomers e s)"
  then show "js_gt (creditsUsed a) (Fin 0)" by (rule hidden_zero)
next
  fix a assume "hideZeroCreditUsers s" "a \<in> set (sortedCustomers e s)" "js_ge (planPrice a) (Fin 0)"
  then show "js_gt (totalValue a) (Fin 0)"
    by (simp add: totalValue_entry js_add_pos hidden_zero)
next
  assume h: "trim (fuzzySearchQuery s) = [] \<and> (\<forall>a\<in>set (sortedCustomers e s). totalValue a \<noteq> NaN)"
  then have "\<forall>a\<in>set (filter (\<lambda>a. trim (fuzzySearchQuery s) = []
                     \<or> fuzzysort_single e (fuzzySearchQuery s) (searchableText a) \<noteq> None)
          (filter (\<lambda>a. \<not> hideZeroCreditUsers s \<or> js_gt (creditsUsed a) (Fin 0))
             (map (entry_of e) (customers e)))). totalValue a \<noteq> NaN"
    by (simp add: sortedCustomers_def set_Array_sort)
  then show "sorted_wrt (\<lambda>a b. js_ge (totalValue a) (totalValue b)) (sortedCustomers e s)"
    unfolding sortedCustomers_def using h by (simp only: compare_blank sorted_Array_sort)
qed

lemma three_view:
  "hideZeroCreditUsers hide_zero_state"
  "trim (fuzzySearchQuery hide_zero_state) = []"
  "list_all (\<lambda>a. totalValue a \<noteq> NaN)
     (sortedCustomers (example_env three_customers None []) hide_zero_state)"
  "list_all (\<lambda>a. js_ge (planPrice a) (Fin 0))
     (sortedCustomers (example_env three_customers None []) hide_zero_state)"
  "map totalValue (sortedCustomers (example_env three_customers None []) hide_zero_state)
   = [Fin 300, Fin 200, Fin 100]"
  by code_simp+

text \<open>Three customers with 300, 200 and 100 credits used and no plan, zero filter on.\<close>

theorem view_postconditions_witness:
  "hideZeroCreditUsers hide_zero_state \<and> trim (fuzzySearchQuery hide_zero_state) = []
   \<and> map totalValue (sortedCustomers (example_env three_customers None []) hide_zero_state)
     = [Fin 300, Fin 200, Fin 100]
   \<and> list_all (\<lambda>a. js_gt (creditsUsed a) (Fin 0) \<and> js_gt (totalValue a) (Fin 0))
       (sortedCustomers (example_env three_customers None []) hide_zero_state)
   \<and> sorted_wrt (\<lambda>a b. js_ge (totalValue a) (totalValue b))
       (sortedCustomers (example_env three_customers None []) hide_zero_state)"
proof -
  let ?v = "sortedCustomers (example_env three_customers None []) hide_zero_state"
  note t = view_postconditions [of "example_env three_customers None []" hide_zero_state]
  have n: "\<forall>a\<in>set ?v. totalValue a \<noteq> NaN"
    using three_view(3) by (simp add: list_all_iff)
  have p: "\<forall>a\<in>set ?v. js_ge (planPrice a) (Fin 0)"
    using three_view(4) by (simp add: list_all_iff)
  from t three_view(1)
  have "\<forall>a\<in>set ?v. js_gt (creditsUsed a) (Fin 0)
                    \<and> (js_ge (planPrice a) (Fin 0) \<longrightarrow> js_gt (totalValue a) (Fin 0))"
    by blast
  with p have 1: "list_all (\<lambda>a. js_gt (creditsUsed a) (Fin 0) \<and> js_gt (totalValue a) (Fin 0)) ?v"
    by (simp add: list_all_iff)
  from t three_view(2) n
  have 2: "sorted_wrt (\<lambda>a b. js_ge (totalValue a) (totalValue b)) ?v"
    by blast
  from 1 2 three_view(1,2,5) show ?thesis by (intro conjI)
qed

lemma priced_view:
  "map totalValue (sortedCustomers priced_env hide_zero_state) = [Fin 11, Fin (- 2)]"
  "map creditsUsed (sortedCustomers priced_env hide_zero_state) = [Fin 1, Fin 5]"
  by code_simp+

text \<open>
  C8 as stated fails, whichever of the two values its computed value is. With the zero
  filter on and no query, a customer with plan price 10 and 1 credit used and one with
  plan price -7 and 5 credits used are shown in this order: the second entry has total
  value -2, which is not greater than 0, and the credits used, 1 then 5, do not descend.
\<close>

theorem view_counterexample:
  "hideZeroCreditUsers hide_zero_state \<and> fuzzySearchQuery hide_zero_state = []
   \<and> map totalValue (sortedCustomers priced_env hide_zero_state) = [Fin 11, Fin (- 2)]
   \<and> \<not> js_gt (Fin (- 2)) (Fin 0)
   \<and> map creditsUsed (sortedCustomers priced_env hide_zero_state) = [Fin 1, Fin 5]
   \<and> \<not> js_ge (Fin 1) (Fin 5)"
  by (simp add: priced_view) (simp add: hide_zero_state_def initial_state_def js_ge_def)

section \<open>Toggling the selection of the current page\<close>

lemma foldl_insert: "foldl (\<lambda>S i. insert i S) A xs = A \<union> set xs"
  by (induction xs arbitrary: A) auto

lemma foldl_remove: "foldl (\<lambda>S i. S - {i}) A xs = A - set xs"
  by (induction xs arbitrary: A) auto

lemma currentCustomers_selection:
  "currentCustomers e (s\<lparr>selectedCustomerIds := X\<rparr>) = currentCustomers e s"
  by (simp add: currentCustomers_def sortedCustomers_def)

lemma page_ids_selection: "page_ids e (s\<lparr>selectedCustomerIds := X\<rparr>) = page_ids e s"
  by (simp add: page_ids_def currentCustomers_selection)

lemma mainNavigation_letter_a:
  "input = ''a'' \<or> input = ''A'' \<Longrightarrow> mainNavigation e input no_key s st = st"
  by (elim disjE) (simp_all add: mainNavigation_def no_key_def)

lemma all_selected_iff:
  "list_all (\<lambda>i. i \<in> selectedCustomerIds s)
          (map (\<lambda>c. customer_id (customer c)) (currentCustomers e s))
        \<longleftrightarrow> page_ids e s \<subseteq> selectedCustomerIds s"
  by (auto simp: list_all_iff page_ids_def)

lemma multiSelectCommands_toggle_all:
  assumes "isMultiSelectMode s" and "input = ''a'' \<or> input = ''A''"
  shows "multiSelectCommands e input s st =
           st\<lparr>selectedCustomerIds :=
               (if page_ids e s \<subseteq> selectedCustomerIds s
                then selectedCustomerIds s - page_ids e s
                else selectedCustomerIds s \<union> page_ids e s)\<rparr>"
  using assms(2)
proof (elim disjE)
  assume "input = ''a''"
  then show ?thesis
    using assms(1) all_selected_iff [of s e]
    by (simp add: multiSelectCommands_def Let_def foldl_insert foldl_remove)
       (simp add: page_ids_def)
next
  assume "input = ''A''"
  then show ?thesis
    using assms(1) all_selected_iff [of s e]
    by (simp add: multiSelectCommands_def Let_def foldl_insert foldl_remove)
       (simp add: page_ids_def)
qed

lemma press_toggle_all:
  assumes "base_navigation s" and "isMultiSelectMode s" and "input = ''a'' \<or> input = ''A''"
  shows "press e input no_key s =
           s\<lparr>selectedCustomerIds :=
               (if page_ids e s \<subseteq> selectedCustomerIds s
                then selectedCustomerIds s - page_ids e s
                else selectedCustomerIds s \<union> page_ids e s)\<rparr>"
proof -
  have "fst (useInput e input no_key s)
        = mainNavigation e input no_key s (multiSelectCommands e input s s)"
    using assms(1) by (simp add: useInput_def base_navigation_def)
  then have "fst (useInput e input no_key s) =
           s\<lparr>selectedCustomerIds :=
               (if page_ids e s \<subseteq> selectedCustomerIds s
                then selectedCustomerIds s - page_ids e s
                else selectedCustomerIds s \<union> page_ids e s)\<rparr>"
    using assms by (simp only: mainNavigation_letter_a multiSelectCommands_toggle_all)
  then show ?thesis
    by (simp add: press_def runEffects_def)
qed

lemma toggle_sets:
  fixes P S :: "'a set"
  defines "S1 \<equiv> (if P \<subseteq> S then S - P else S \<union> P)"
  defines "S2 \<equiv> (if P \<subseteq> S1 then S1 - P else S1 \<union> P)"
  shows "S1 - P = S - P" and "S2 - P = S - P"
    and "P \<subseteq> S \<or> P \<inter> S = {} \<Longrightarrow> S2 = S"
    and "\<not> P \<subseteq> S \<Longrightarrow> S2 = S - P"
  unfolding S2_def S1_def by (auto split: if_splits)

text \<open>
  C9, as amended. In multi-select mode on the base table, with the page fixed: neither
  application of toggle-all changes the membership of an identifier that is not on the
  current page. Two applications in succession restore the whole state when the page
  was fully selected or had no identifier selected. When the page was partly selected
  (some, not all), the two applications leave no identifier of the page selected.
\<close>

theorem toggle_all_twice:
  assumes "base_navigation s" and "isMultiSelectMode s" and "input = ''a'' \<or> input = ''A''"
  shows "selectedCustomerIds (press e input no_key s) - page_ids e s
           = selectedCustomerIds s - page_ids e s
         \<and> selectedCustomerIds (press e input no_key (press e input no_key s)) - page_ids e s
           = selectedCustomerIds s - page_ids e s
         \<and> (page_ids e s \<subseteq> selectedCustomerIds s \<or> page_ids e s \<inter> selectedCustomerIds s = {}
            \<longrightarrow> press e input no_key (press e input no_key s) = s)
         \<and> (\<not> page_ids e s \<subseteq> selectedCustomerIds s
            \<longrightarrow> selectedCustomerIds (press e input no_key (press e input no_key s))
                 = selectedCustomerIds s - page_ids e s)"
proof -
  define P where "P = page_ids e s"
  define S where "S = selectedCustomerIds s"
  define S1 where "S1 = (if P \<subseteq> S then S - P else S \<union> P)"
  define S2 where "S2 = (if P \<subseteq> S1 then S1 - P else S1 \<union> P)"
  have s1: "press e input no_key s = s\<lparr>selectedCustomerIds := S1\<rparr>"
    unfolding S1_def P_def S_def using assms by (rule press_toggle_all)
  have "base_navigation (s\<lparr>selectedCustomerIds := S1\<rparr>)"
    and "isMultiSelectMode (s\<lparr>selectedCustomerIds := S1\<rparr>)"
    using assms(1,2) by (simp_all add: base_navigation_def)
  from press_toggle_all [OF this assms(3), of e]
  have s2: "press e input no_key (s\<lparr>selectedCustomerIds := S1\<rparr>) = s\<lparr>selectedCustomerIds := S2\<rparr>"
    by (simp add: S2_def P_def page_ids_selection)
  have a: "S1 - P = S - P" and b: "S2 - P = S - P"
    and c: "P \<subseteq> S \<or> P \<inter> S = {} \<Longrightarrow> S2 = S" and d: "\<not> P \<subseteq> S \<Longrightarrow> S2 = S - P"
    unfolding S2_def S1_def
    by (rule toggle_sets(1) toggle_sets(2) toggle_sets(3) toggle_sets(4), assumption?)+
  have same: "s\<lparr>selectedCustomerIds := S\<rparr> = s"
    by (simp add: S_def)
  show ?thesis
    unfolding s1 s2 P_def [symmetric] S_def [symmetric]
    using a b c d same by simp
qed


lemma toggle_examples:
  "base_navigation (selecting {''a'', ''b'', ''c'', ''z''})"
  "isMultiSelectMode (selecting {''a'', ''b'', ''c'', ''z''})"
  "page_ids (example_env three_customers None []) (selecting {''a'', ''b'', ''c'', ''z''})
   \<subseteq> selectedCustomerIds (selecting {''a'', ''b'', ''c'', ''z''})"
  "base_navigation (selecting {''a'', ''z''})"
  "isMultiSelectMode (selecting {''a'', ''z''})"
  "\<not> page_ids (example_env three_customers None []) (selecting {''a'', ''z''})
     \<subseteq> selectedCustomerIds (selecting {''a'', ''z''})"
  "selectedCustomerIds (selecting {''a'', ''z''})
   - page_ids (example_env three_customers None []) (selecting {''a'', ''z''}) = {''z''}"
  by code_simp+

text \<open>
  A page of three customers: fully selected (with one more id selected elsewhere), two
  applications restore the state; with one of the three selected, they leave only the id
  that is not on the page.
\<close>

theorem toggle_all_twice_witness:
  "press (example_env three_customers None []) ''a'' no_key
     (press (example_env three_customers None []) ''a'' no_key (selecting {''a'', ''b'', ''c'', ''z''}))
   = selecting {''a'', ''b'', ''c'', ''z''}
   \<and> selectedCustomerIds
       (press (example_env three_customers None []) ''A'' no_key
          (press (example_env three_customers None []) ''A'' no_key (selecting {''a'', ''z''})))
     = {''z''}"
  using toggle_all_twice [OF toggle_examples(1,2), of "''a''" "example_env three_customers None []"]
    toggle_all_twice [OF toggle_examples(4,5), of "''A''" "example_env three_customers None []"]
    toggle_examples(3,6,7)
  by simp

text \<open>
  C9 as stated fails on a partly selected page: of the page \<open>a\<close>, \<open>b\<close>, \<open>c\<close> only \<open>a\<close> is
  selected; the first application selects all three, the second deselects all three, and
  \<open>a\<close> has lost its membership.
\<close>

theorem toggle_all_twice_counterexample:
  "base_navigation (selecting {''a''}) \<and> isMultiSelectMode (selecting {''a''})
   \<and> ''a'' \<in> page_ids (example_env three_customers None []) (selecting {''a''})
   \<and> ''a'' \<in> selectedCustomerIds (selecting {''a''})
   \<and> ''a'' \<notin> selectedCustomerIds
              (press (example_env three_customers None []) ''a'' no_key
                 (press (example_env three_customers None []) ''a'' no_key (selecting {''a''})))"
  by code_simp

section \<open>The fallback loop of \<open>executeBatchAction\<close>\<close>

lemma loop_end:
  "length ids \<le> i \<Longrightarrow> fallback_loop a ids cs cb i st = (st, [], Settled ())"
  by (subst fallback_loop.simps) simp

lemma loop_skip:
  "i < length ids \<Longrightarrow> \<not> valid_position ids cs i \<Longrightarrow>
   fallback_loop a ids cs cb i st =
     (case fallback_loop a ids cs cb (Suc i) st of
        (st', evs, r) \<Rightarrow> (st', InvalidCustomerData i # evs, r))"
  by (subst fallback_loop.simps)
     (auto simp: valid_position_def Let_def split: option.splits)

lemma loop_call:
  assumes "i < length ids" and "valid_position ids cs i"
  shows "fallback_loop a ids cs cb i st =
     (case call_result a ids cs i of
        Threw err \<Rightarrow>
          (foldl (\<lambda>acc m. call_optional cb (ids ! i) m acc) st
             (fst (handler a (ids ! i) (the (cs ! i)))),
           [HandlerCalled i (ids ! i), HandlerSettled i], Threw err)
      | Settled v \<Rightarrow>
          (case fallback_loop a ids cs cb (Suc i)
                  (foldl (\<lambda>acc m. call_optional cb (ids ! i) m acc) st
                     (fst (handler a (ids ! i) (the (cs ! i))))) of
             (st', evs, r) \<Rightarrow>
               (st',
                HandlerCalled i (ids ! i)
                # (if left_in_flight a ids cs i then evs else HandlerSettled i # evs),
                r)))"
  using assms
  by (subst fallback_loop.simps)
     (auto simp: valid_position_def item_at_def Let_def call_result_def left_in_flight_def
        split: option.splits if_splits prod.splits outcome.splits)

lemma find_in_set: "find P xs = Some k \<Longrightarrow> k \<in> set xs"
  by (induction xs) (auto split: if_splits)

lemma fallback_loop_trace:
  "case fallback_loop a ids cs cb i st of
     (st', evs, r) \<Rightarrow>
       (case find (\<lambda>j. valid_position ids cs j \<and> throws_at a ids cs j) [i..<length ids] of
            None \<Rightarrow>
              handler_calls evs
                = map (\<lambda>j. (j, ids ! j)) (filter (valid_position ids cs) [i..<length ids])
              \<and> skipped evs = filter (\<lambda>j. \<not> valid_position ids cs j) [i..<length ids]
              \<and> r = Settled ()
          | Some k \<Rightarrow>
              handler_calls evs
                = map (\<lambda>j. (j, ids ! j)) (filter (valid_position ids cs) [i..<Suc k])
              \<and> skipped evs = filter (\<lambda>j. \<not> valid_position ids cs j) [i..<k]
              \<and> same_throw r (call_result a ids cs k))"
proof (induction "length ids - i" arbitrary: i st)
  case 0
  then show ?case by (simp add: loop_end)
next
  case (Suc n)
  let ?P = "\<lambda>j. valid_position ids cs j \<and> throws_at a ids cs j"
  from Suc.hyps(2) have i: "i < length ids" and n: "n = length ids - Suc i" by simp_all
  have upt: "[i..<length ids] = i # [Suc i..<length ids]"
    using i by (simp add: upt_conv_Cons)
  have later: "[i..<Suc k] = i # [Suc i..<Suc k] \<and> [i..<k] = i # [Suc i..<k]"
    if "find ?P [Suc i..<length ids] = Some k" for k
  proof -
    from find_in_set [OF that] have "i < k" by simp
    then show ?thesis by (simp add: upt_conv_Cons)
  qed
  show ?case
  proof (cases "valid_position ids cs i")
    case False
    have f: "find ?P [i..<length ids] = find ?P [Suc i..<length ids]"
      using False by (simp add: upt)
    obtain st' evs r where l: "fallback_loop a ids cs cb (Suc i) st = (st', evs, r)"
      by (cases "fallback_loop a ids cs cb (Suc i) st") auto
    from Suc.hyps(1) [OF n, of st] l False later show ?thesis
      unfolding loop_skip [OF i False] f
      by (auto simp: upt split: option.splits)
  next
    case True
    show ?thesis
    proof (cases "call_result a ids cs i")
      case (Threw err)
      with True have "?P i" by (simp add: throws_at_def)
      then have f: "find ?P [i..<length ids] = Some i"
        by (simp add: upt)
      show ?thesis
        unfolding loop_call [OF i True] f
        using Threw True by (simp add: same_throw_def)
    next
      case (Settled v)
      then have "\<not> throws_at a ids cs i" by (simp add: throws_at_def)
      then have f: "find ?P [i..<length ids] = find ?P [Suc i..<length ids]"
        by (simp add: upt)
      let ?st1 = "foldl (\<lambda>acc m. call_optional cb (ids ! i) m acc) st
                    (fst (handler a (ids ! i) (the (cs ! i))))"
      obtain st' evs r where l: "fallback_loop a ids cs cb (Suc i) ?st1 = (st', evs, r)"
        by (cases "fallback_loop a ids cs cb (Suc i) ?st1") auto
      from Suc.hyps(1) [OF n, of ?st1] l True later show ?thesis
        unfolding loop_call [OF i True] f
        by (auto simp: upt Settled split: option.splits)
    qed
  qed
qed

lemma fallback_loop_sequential:
  assumes "\<forall>j<length ids. valid_position ids cs j \<longrightarrow> \<not> left_in_flight a ids cs j"
  shows "one_at_a_time None (fst (snd (fallback_loop a ids cs cb i st)))"
proof (induction "length ids - i" arbitrary: i st)
  case 0
  then show ?case by (simp add: loop_end)
next
  case (Suc n)
  from Suc.hyps(2) have i: "i < length ids" and n: "n = length ids - Suc i" by simp_all
  show ?case
  proof (cases "valid_position ids cs i")
    case False
    from Suc.hyps(1) [OF n, of st] show ?thesis
      unfolding loop_skip [OF i False] by (simp add: case_prod_beta)
  next
    case True
    with assms i have w: "\<not> left_in_flight a ids cs i" by simp
    let ?st1 = "foldl (\<lambda>acc m. call_optional cb (ids ! i) m acc) st
                  (fst (handler a (ids ! i) (the (cs ! i))))"
    from Suc.hyps(1) [OF n, of ?st1] w show ?thesis
      unfolding loop_call [OF i True]
      by (simp add: case_prod_beta split: outcome.splits)
  qed
qed


lemma pending_blocks:
  "one_at_a_time (Some c) (fst (snd (fallback_loop a ids cs cb i st)))
   \<longleftrightarrow> handler_calls (fst (snd (fallback_loop a ids cs cb i st))) = []"
proof (induction "length ids - i" arbitrary: i st)
  case 0
  then show ?case by (simp add: loop_end)
next
  case (Suc n)
  from Suc.hyps(2) have i: "i < length ids" and n: "n = length ids - Suc i" by simp_all
  show ?case
  proof (cases "valid_position ids cs i")
    case False
    from Suc.hyps(1) [OF n, of st] show ?thesis
      unfolding loop_skip [OF i False] by (simp add: case_prod_beta)
  next
    case True
    show ?thesis
      unfolding loop_call [OF i True]
      by (simp add: case_prod_beta split: outcome.splits)
  qed
qed

lemma fallback_loop_in_flight:
  "one_at_a_time None (fst (snd (fallback_loop a ids cs cb i st)))
   \<longleftrightarrow> (\<forall>p\<in>set (butlast (map fst (handler_calls (fst (snd (fallback_loop a ids cs cb i st)))))).
         \<not> left_in_flight a ids cs p)"
proof (induction "length ids - i" arbitrary: i st)
  case 0
  then show ?case by (simp add: loop_end)
next
  case (Suc n)
  from Suc.hyps(2) have i: "i < length ids" and n: "n = length ids - Suc i" by simp_all
  show ?case
  proof (cases "valid_position ids cs i")
    case False
    from Suc.hyps(1) [OF n, of st] show ?thesis
      unfolding loop_skip [OF i False] by (simp add: case_prod_beta)
  next
    case True
    let ?st1 = "foldl (\<lambda>acc m. call_optional cb (ids ! i) m acc) st
                  (fst (handler a (ids ! i) (the (cs ! i))))"
    show ?thesis
    proof (cases "call_result a ids cs i")
      case (Threw err)
      then show ?thesis
        unfolding loop_call [OF i True] by simp
    next
      case (Settled v)
      show ?thesis
      proof (cases "left_in_flight a ids cs i")
        case True
        with Settled pending_blocks [of i a ids cs cb "Suc i" ?st1] show ?thesis
          unfolding loop_call [OF i \<open>valid_position ids cs i\<close>]
          by (auto simp: case_prod_beta)
      next
        case False
        with Settled Suc.hyps(1) [OF n, of ?st1] show ?thesis
          unfolding loop_call [OF i True]
          by (auto simp: case_prod_beta)
      qed
    qed
  qed
qed


lemma handler_calls_failed: "handler_calls (evs @ [BatchActionFailed err]) = handler_calls evs"
  by (induction evs rule: handler_calls.induct) simp_all

lemma skipped_failed: "skipped (evs @ [BatchActionFailed err]) = skipped evs"
  by (induction evs rule: skipped.induct) simp_all

lemma one_at_a_time_failed:
  "one_at_a_time cur (evs @ [BatchActionFailed err]) = one_at_a_time cur evs"
  by (induction cur evs rule: one_at_a_time.induct) simp_all

lemma executeBatchAction_fallback:
  "batchHandler a = None \<Longrightarrow>
   executeBatchAction (Some a) ids cs cb st =
     (case fallback_loop a ids cs cb 0 st of
        (st', evs, Threw err) \<Rightarrow> (st', evs @ [BatchActionFailed err], Threw err)
      | (st', evs, Settled u) \<Rightarrow> (st', evs, Settled u))"
  by (simp add: executeBatchAction_def)

text \<open>
  C5, as amended. For an action without a batch handler, the fallback path calls the
  single handler for the valid positions in list order. A position whose id or record is
  missing is reported as invalid and the loop goes on with the next position. If a call
  throws or the native promise it returns rejects, that call is the last one, no later
  position is called or reported, and the batch is rejected with what was thrown; if
  there is no such call, every valid position is called and the batch is fulfilled.
  A call is awaited only when its result is a native promise. Never two calls are in
  flight exactly when no call but the last one made is left pending, so in particular
  when the handler never returns a promise-like object that is not a native promise.
  Such an object is not awaited: the loop goes on with the next position while the call
  is pending, and what the object settles to, a rejection too, neither ends the loop nor
  rejects the batch.
\<close>

theorem fallback_calls_in_order:
  assumes "batchHandler a = None"
  shows "case executeBatchAction (Some a) ids cs cb st of
     (st', evs, r) \<Rightarrow>
       (case first_throw a ids cs of
          None \<Rightarrow>
            handler_calls evs
              = map (\<lambda>j. (j, ids ! j)) (filter (valid_position ids cs) [0..<length ids])
            \<and> skipped evs = filter (\<lambda>j. \<not> valid_position ids cs j) [0..<length ids]
            \<and> r = Settled ()
        | Some k \<Rightarrow>
            handler_calls evs
              = map (\<lambda>j. (j, ids ! j)) (filter (valid_position ids cs) [0..<Suc k])
            \<and> skipped evs = filter (\<lambda>j. \<not> valid_position ids cs j) [0..<k]
            \<and> same_throw r (call_result a ids cs k))
       \<and> (one_at_a_time None evs
            \<longleftrightarrow> (\<forall>p\<in>set (butlast (map fst (handler_calls evs))). \<not> left_in_flight a ids cs p))
       \<and> ((\<forall>i c. \<not> left_pending (snd (handler a i c))) \<longrightarrow> one_at_a_time None evs)"
proof -
  obtain st' evs r where l: "fallback_loop a ids cs cb 0 st = (st', evs, r)"
    by (cases "fallback_loop a ids cs cb 0 st") auto
  from fallback_loop_trace [where a=a and ids=ids and cs=cs and cb=cb and i=0 and st=st] l
  have t: "case first_throw a ids cs of
          None \<Rightarrow>
            handler_calls evs
              = map (\<lambda>j. (j, ids ! j)) (filter (valid_position ids cs) [0..<length ids])
            \<and> skipped evs = filter (\<lambda>j. \<not> valid_position ids cs j) [0..<length ids]
            \<and> r = Settled ()
        | Some k \<Rightarrow>
            handler_calls evs
              = map (\<lambda>j. (j, ids ! j)) (filter (valid_position ids cs) [0..<Suc k])
            \<and> skipped evs = filter (\<lambda>j. \<not> valid_position ids cs j) [0..<k]
            \<and> same_throw r (call_result a ids cs k)"
    by (simp add: first_throw_def)
  from fallback_loop_in_flight [where a=a and ids=ids and cs=cs and cb=cb and i=0 and st=st] l
  have f: "one_at_a_time None evs
           \<longleftrightarrow> (\<forall>p\<in>set (butlast (map fst (handler_calls evs))). \<not> left_in_flight a ids cs p)"
    by simp
  then have g: "(\<forall>i c. \<not> left_pending (snd (handler a i c))) \<longrightarrow> one_at_a_time None evs"
    by (simp add: left_in_flight_def)
  show ?thesis
  proof (cases r)
    case (Settled u)
    with t f g l assms show ?thesis
      by (simp add: executeBatchAction_fallback split: option.splits)
  next
    case (Threw err)
    with t f g l assms show ?thesis
      by (simp add: executeBatchAction_fallback handler_calls_failed skipped_failed
          one_at_a_time_failed split: option.splits)
  qed
qed

lemma fallback_example:
  "batchHandler async_action = None"
  "first_throw async_action [''a'', ''x'', ''b'', ''c''] fallback_customers = Some 2"
  "map (\<lambda>j. (j, [''a'', ''x'', ''b'', ''c''] ! j))
     (filter (valid_position [''a'', ''x'', ''b'', ''c''] fallback_customers) [0..<3])
   = [(0, ''a''), (2, ''b'')]"
  "filter (\<lambda>j. \<not> valid_position [''a'', ''x'', ''b'', ''c''] fallback_customers j) [0..<2] = [1]"
  "call_result async_action [''a'', ''x'', ''b'', ''c''] fallback_customers 2
   = Threw (Error ''boom'')"
  by code_simp+

lemma async_action_awaited: "\<forall>i c. \<not> left_pending (snd (handler async_action i c))"
  by (simp add: async_action_def left_pending_def)

text \<open>
  Four positions with the asynchronous handler, the second without a record, the third
  with a promise that rejects: the first and the third are called, one at a time, the
  second is reported, the fourth is not reached.
\<close>

theorem fallback_calls_in_order_witness:
  "batchHandler async_action = None
   \<and> handler_calls (fst (snd (executeBatchAction (Some async_action) [''a'', ''x'', ''b'', ''c'']
                                 fallback_customers None initial_state)))
     = [(0, ''a''), (2, ''b'')]
   \<and> skipped (fst (snd (executeBatchAction (Some async_action) [''a'', ''x'', ''b'', ''c'']
                           fallback_customers None initial_state)))
     = [1]
   \<and> snd (snd (executeBatchAction (Some async_action) [''a'', ''x'', ''b'', ''c'']
                  fallback_customers None initial_state))
     = Threw (Error ''boom'')
   \<and> one_at_a_time None
       (fst (snd (executeBatchAction (Some async_action) [''a'', ''x'', ''b'', ''c'']
                    fallback_customers None initial_state)))"
proof -
  obtain st' evs r
    where e: "executeBatchAction (Some async_action) [''a'', ''x'', ''b'', ''c'']
                fallback_customers None initial_state = (st', evs, r)"
    by (cases "executeBatchAction (Some async_action) [''a'', ''x'', ''b'', ''c'']
                 fallback_customers None initial_state") auto
  from fallback_calls_in_order [OF fallback_example(1), of "[''a'', ''x'', ''b'', ''c'']"
      fallback_customers None initial_state]
  have "handler_calls evs = [(0, ''a''), (2, ''b'')] \<and> skipped evs = [1]
        \<and> same_throw r (Threw (Error ''boom'')) \<and> one_at_a_time None evs"
    unfolding e using async_action_awaited by (simp add: fallback_example left_in_flight_def)
  then show ?thesis
    using fallback_example(1) by (simp add: e same_throw_def split: outcome.splits)
qed

text \<open>
  C5 as stated fails. The call for \<open>a\<close> returns a promise-like object that is not a native
  promise: \<open>result instanceof Promise\<close> is false, nothing is awaited, and the handler for
  \<open>b\<close> is called while the call for \<open>a\<close> is in flight. The object rejects later, and the
  batch is fulfilled all the same.
\<close>

theorem fallback_thenable_counterexample:
  "batchHandler thenable_action = None
   \<and> snd (handler thenable_action ''a'' (token_customer ''a'' None []))
     = Settled (Thenable (Threw (Error ''boom'')))
   \<and> executeBatchAction (Some thenable_action) [''a'', ''b'']
        [Some (token_customer ''a'' None []), Some (token_customer ''b'' None [])] None
        initial_state
     = (initial_state, [HandlerCalled 0 ''a'', HandlerCalled 1 ''b'', HandlerSettled 1], Settled ())
   \<and> \<not> one_at_a_time None [HandlerCalled 0 ''a'', HandlerCalled 1 ''b'', HandlerSettled 1]"
  by (simp add: executeBatchAction_def thenable_action_def fallback_loop.simps item_at_def
      await_if_promise_def left_pending_def token_customer_def)

section \<open>Batch runs and the status map\<close>

lemma initialStatuses_fold:
  "foldl (\<lambda>m c. m(customer_id (customer c) \<mapsto> \<lparr>status = pending, message = None\<rparr>)) m0 xs
   = (\<lambda>k. if k \<in> set (map (\<lambda>c. customer_id (customer c)) xs)
            then Some \<lparr>status = pending, message = None\<rparr> else m0 k)"
  by (induction xs arbitrary: m0) (auto simp: fun_eq_iff)

lemma initialStatuses_eq:
  "initialStatuses xs
   = (\<lambda>k. if k \<in> set (map (\<lambda>c. customer_id (customer c)) xs)
            then Some \<lparr>status = pending, message = None\<rparr> else None)"
  by (simp add: initialStatuses_def initialStatuses_fold)

lemma dom_initialStatuses:
  "dom (initialStatuses xs) = set (map (\<lambda>c. customer_id (customer c)) xs)"
  by (auto simp: initialStatuses_eq dom_def)

lemma dom_batchStatusCallback:
  "dom (migrationStatuses (batchStatusCallback i m st)) = insert i (dom (migrationStatuses st))"
  by (simp add: batchStatusCallback_def)

lemma dom_batch_calls:
  "dom (migrationStatuses
          (foldl (\<lambda>acc (i, m). call_optional (Some batchStatusCallback) i m acc) st calls))
   = dom (migrationStatuses st) \<union> fst ` set calls"
  by (induction calls arbitrary: st)
     (simp_all add: call_optional_def dom_batchStatusCallback case_prod_beta)

lemma dom_item_calls:
  "dom (migrationStatuses
          (foldl (\<lambda>acc m. call_optional (Some batchStatusCallback) i m acc) st msgs))
   = dom (migrationStatuses st) \<union> (if msgs = [] then {} else {i})"
  by (induction msgs arbitrary: st)
     (simp_all add: call_optional_def dom_batchStatusCallback)

lemma dom_fallback_loop:
  "dom (migrationStatuses st)
     \<subseteq> dom (migrationStatuses (fst (fallback_loop a ids cs (Some batchStatusCallback) i st)))
   \<and> dom (migrationStatuses (fst (fallback_loop a ids cs (Some batchStatusCallback) i st)))
     \<subseteq> dom (migrationStatuses st) \<union> set ids"
proof (induction "length ids - i" arbitrary: i st)
  case 0
  then show ?case by (simp add: loop_end)
next
  case (Suc n)
  from Suc.hyps(2) have i: "i < length ids" and n: "n = length ids - Suc i" by simp_all
  show ?case
  proof (cases "valid_position ids cs i")
    case False
    have "fst (fallback_loop a ids cs (Some batchStatusCallback) i st)
          = fst (fallback_loop a ids cs (Some batchStatusCallback) (Suc i) st)"
      by (simp add: loop_skip [OF i False] case_prod_beta)
    with Suc.hyps(1) [OF n, of st] show ?thesis
      by (simp only:)
  next
    case True
    let ?st1 = "foldl (\<lambda>acc m. call_optional (Some batchStatusCallback) (ids ! i) m acc) st
                  (fst (handler a (ids ! i) (the (cs ! i))))"
    have "ids ! i \<in> set ids" using i by simp
    then have d: "dom (migrationStatuses st) \<subseteq> dom (migrationStatuses ?st1)
             \<and> dom (migrationStatuses ?st1) \<subseteq> dom (migrationStatuses st) \<union> set ids"
      unfolding dom_item_calls by (simp split: if_splits)
    show ?thesis
    proof (cases "call_result a ids cs i")
      case (Threw err)
      then have "fst (fallback_loop a ids cs (Some batchStatusCallback) i st) = ?st1"
        by (simp add: loop_call [OF i True])
      with d show ?thesis by simp
    next
      case (Settled v)
      then have "fst (fallback_loop a ids cs (Some batchStatusCallback) i st)
                   = fst (fallback_loop a ids cs (Some batchStatusCallback) (Suc i) ?st1)"
        by (simp add: loop_call [OF i True] case_prod_beta)
      with Suc.hyps(1) [OF n, of ?st1] d show ?thesis
        by (simp only:) blast
    qed
  qed
qed

lemma foldl_grows:
  assumes "\<And>acc x. D acc \<subseteq> D (f acc x) \<and> D (f acc x) \<subseteq> insert (g x) (D acc)"
  shows "D st \<subseteq> D (foldl f st xs) \<and> D (foldl f st xs) \<subseteq> D st \<union> g ` set xs"
proof (induction xs arbitrary: st)
  case Nil
  then show ?case by simp
next
  case (Cons x xs)
  from assms [of st x] Cons [of "f st x"] show ?case
    by simp blast
qed

lemma dom_markRemainingFailed:
  "dom (migrationStatuses st) \<subseteq> dom (migrationStatuses (markRemainingFailed s xs err st))
   \<and> dom (migrationStatuses (markRemainingFailed s xs err st))
     \<subseteq> dom (migrationStatuses st) \<union> set (map (\<lambda>c. customer_id (customer c)) xs)"
  unfolding markRemainingFailed_def set_map
  by (rule foldl_grows [where D = "\<lambda>st. dom (migrationStatuses st)"])
     (auto split: option.splits)


lemma fst_executeBatchAction:
  "fst (executeBatchAction (Some a) ids cs cb st)
   = (case batchHandler a of
        Some bh \<Rightarrow> foldl (\<lambda>acc (i, m). call_optional cb i m acc) st (fst (bh ids cs))
      | None \<Rightarrow> fst (fallback_loop a ids cs cb 0 st))"
  by (simp add: executeBatchAction_def split: option.splits prod.splits outcome.splits)

lemma handleBatchAction_migrate:
  assumes "item_at (actions e) (selectedActionIndex s) = Some a" and "action_id a = ''migrate''"
      and "selectedCustomers e s \<noteq> []"
  shows "fst (handleBatchAction e s)
         = (case executeBatchAction (Some a) (selected_ids e s)
                   (map (\<lambda>c. Some (customer c)) (selectedCustomers e s))
                   (Some batchStatusCallback)
                   (s\<lparr>isBatchMigrationInProgress := True,
                      migrationStatuses := initialStatuses (selectedCustomers e s)\<rparr>) of
              (st, evs, Threw err) \<Rightarrow> markRemainingFailed s (selectedCustomers e s) err st
            | (st, evs, Settled u) \<Rightarrow> st)"
  using assms
  by (simp add: handleBatchAction_def selected_ids_def Let_def split: prod.splits outcome.splits)

text \<open>
  C3, as amended. A batch run of the \<open>migrate\<close> action on the identifier set \<open>S\<close> starts
  with a status map whose keys are exactly \<open>S\<close>, all mapped to \<open>pending\<close>. When the run,
  uninterrupted by a key event or another run, is over, on success and on the abort path
  alike, the keys are \<open>S\<close> together with every
  identifier that the batch handler passed to the status callback: the callback adds a key
  for an identifier outside \<open>S\<close>. On the fallback path, where the callback only receives
  identifiers of the run, the keys are exactly \<open>S\<close>.
\<close>

theorem status_map_keys:
  assumes "item_at (actions e) (selectedActionIndex s) = Some a" and "action_id a = ''migrate''"
      and "selectedCustomers e s \<noteq> []"
  shows "dom (initialStatuses (selectedCustomers e s)) = set (selected_ids e s)
         \<and> (\<forall>i\<in>set (selected_ids e s).
               initialStatuses (selectedCustomers e s) i
               = Some \<lparr>status = pending, message = None\<rparr>)
         \<and> dom (migrationStatuses (fst (handleBatchAction e s)))
           = set (selected_ids e s)
             \<union> (case batchHandler a of
                  None \<Rightarrow> {}
                | Some bh \<Rightarrow>
                    fst ` set (fst (bh (selected_ids e s)
                                      (map (\<lambda>c. Some (customer c)) (selectedCustomers e s)))))"
proof -
  let ?sel = "selectedCustomers e s"
  let ?S = "set (selected_ids e s)"
  let ?s0 = "s\<lparr>isBatchMigrationInProgress := True, migrationStatuses := initialStatuses ?sel\<rparr>"
  let ?cs = "map (\<lambda>c. Some (customer c)) ?sel"
  let ?X = "case batchHandler a of
              None \<Rightarrow> {}
            | Some bh \<Rightarrow> fst ` set (fst (bh (selected_ids e s) ?cs))"
  have init: "dom (initialStatuses ?sel) = ?S"
    by (simp add: dom_initialStatuses selected_ids_def)
  have pend: "\<forall>i\<in>?S. initialStatuses ?sel i = Some \<lparr>status = pending, message = None\<rparr>"
    by (simp add: initialStatuses_eq selected_ids_def)
  obtain st evs r
    where x: "executeBatchAction (Some a) (selected_ids e s) ?cs (Some batchStatusCallback) ?s0
              = (st, evs, r)"
    by (cases "executeBatchAction (Some a) (selected_ids e s) ?cs (Some batchStatusCallback) ?s0")
       auto
  have st: "dom (migrationStatuses st) = ?S \<union> ?X"
  proof (cases "batchHandler a")
    case None
    with x have "st = fst (fallback_loop a (selected_ids e s) ?cs (Some batchStatusCallback) 0 ?s0)"
      using fst_executeBatchAction [of a "selected_ids e s" ?cs "Some batchStatusCallback" ?s0]
      by simp
    with dom_fallback_loop [of ?s0 a "selected_ids e s" ?cs 0] init None show ?thesis
      by auto
  next
    case (Some bh)
    with x have "st = foldl (\<lambda>acc (i, m). call_optional (Some batchStatusCallback) i m acc) ?s0
                        (fst (bh (selected_ids e s) ?cs))"
      using fst_executeBatchAction [of a "selected_ids e s" ?cs "Some batchStatusCallback" ?s0]
      by simp
    with init Some show ?thesis
      by (simp add: dom_batch_calls)
  qed
  have "dom (migrationStatuses (fst (handleBatchAction e s))) = ?S \<union> ?X"
  proof (cases r)
    case (Settled u)
    with x st show ?thesis
      by (simp add: handleBatchAction_migrate [OF assms])
  next
    case (Threw err)
    with x have "fst (handleBatchAction e s) = markRemainingFailed s ?sel err st"
      by (simp add: handleBatchAction_migrate [OF assms])
    with dom_markRemainingFailed [of st s ?sel err] st show ?thesis
      by (auto simp: selected_ids_def)
  qed
  with init pend show ?thesis by simp
qed

lemma keys_examples:
  "item_at (actions chatty_env) (selectedActionIndex one_selected) = Some chatty_action"
  "action_id chatty_action = ''migrate''"
  "batchHandler chatty_action = Some (\<lambda>ids cs. ([(''zzz'', ''working'')], Settled ()))"
  "selected_ids chatty_env one_selected = [''a'']"
  "item_at (actions migrate_env) (selectedActionIndex batch_ready) = Some migrate_action"
  "action_id migrate_action = ''migrate''"
  "batchHandler migrate_action = None"
  "selected_ids migrate_env batch_ready = [''a'', ''b'', ''c'']"
proof -
  have "selectedActionIndex one_selected = 0" and "selectedActionIndex batch_ready = 0"
    by code_simp+
  then show "item_at (actions chatty_env) (selectedActionIndex one_selected) = Some chatty_action"
    and "item_at (actions migrate_env) (selectedActionIndex batch_ready) = Some migrate_action"
    by (simp_all add: item_at_def chatty_env_def migrate_env_def example_env_def)
  show "action_id chatty_action = ''migrate''"
    and "batchHandler chatty_action = Some (\<lambda>ids cs. ([(''zzz'', ''working'')], Settled ()))"
    by (simp_all add: chatty_action_def)
  show "action_id migrate_action = ''migrate''" and "batchHandler migrate_action = None"
    by (simp_all add: migrate_action_def)
  show "selected_ids chatty_env one_selected = [''a'']"
    and "selected_ids migrate_env batch_ready = [''a'', ''b'', ''c'']"
    by code_simp+
qed

text \<open>
  A batch handler that reports on \<open>zzz\<close> in a run on \<open>a\<close>, and the fallback path in a run on
  \<open>a\<close>, \<open>b\<close> and \<open>c\<close> that is aborted by the second call.
\<close>

theorem status_map_keys_witness:
  "dom (migrationStatuses (fst (handleBatchAction chatty_env one_selected))) = {''a'', ''zzz''}
   \<and> dom (migrationStatuses (fst (handleBatchAction migrate_env batch_ready)))
     = {''a'', ''b'', ''c''}"
proof -
  have 1: "selectedCustomers chatty_env one_selected \<noteq> []"
    and 2: "selectedCustomers migrate_env batch_ready \<noteq> []"
    using keys_examples(4,8) by (auto simp: selected_ids_def)
  from status_map_keys [OF keys_examples(1,2) 1]
  have "dom (migrationStatuses (fst (handleBatchAction chatty_env one_selected)))
        = {''a'', ''zzz''}"
    by (auto simp: keys_examples)
  moreover from status_map_keys [OF keys_examples(5,6) 2]
  have "dom (migrationStatuses (fst (handleBatchAction migrate_env batch_ready)))
        = {''a'', ''b'', ''c''}"
    by (auto simp: keys_examples)
  ultimately show ?thesis by simp
qed

text \<open>
  C3 as stated fails: in a run on \<open>a\<close> alone, a status callback for \<open>zzz\<close> adds the key
  \<open>zzz\<close> to the status map.
\<close>

theorem status_map_keys_counterexample:
  "selected_ids chatty_env one_selected = [''a'']
   \<and> migrationStatuses (fst (handleBatchAction chatty_env one_selected)) ''zzz''
     = Some \<lparr>status = in_progress, message = Some ''working''\<rparr>"
  by code_simp

text \<open>
  What the \<open>catch\<close> block does in general: when the map of the render in which the run was
  started has no entry for the identifiers of the run, as is the case for the first run of
  the table and for a run started after the overlay was closed and no callback has fired
  since, an abort sets every identifier of the run to \<open>failed\<close>, whatever its status was at
  the throw.
\<close>

lemma markRemainingFailed_unseen:
  assumes "\<forall>c\<in>set xs. migrationStatuses s (customer_id (customer c)) = None"
  shows "migrationStatuses (markRemainingFailed s xs err st)
         = (\<lambda>i. if i \<in> set (map (\<lambda>c. customer_id (customer c)) xs)
                 then Some \<lparr>status = failed,
                            message = Some (message_or err ''Batch operation failed'')\<rparr>
                 else migrationStatuses st i)"
  using assms unfolding markRemainingFailed_def
  by (induction xs arbitrary: st) (auto simp: fun_eq_iff)

lemma abort_marks_all_failed:
  assumes "item_at (actions e) (selectedActionIndex s) = Some a" and "action_id a = ''migrate''"
      and "selectedCustomers e s \<noteq> []"
      and "\<forall>i\<in>set (selected_ids e s). migrationStatuses s i = None"
      and "snd (snd (executeBatchAction (Some a) (selected_ids e s)
                   (map (\<lambda>c. Some (customer c)) (selectedCustomers e s))
                   (Some batchStatusCallback)
                   (s\<lparr>isBatchMigrationInProgress := True,
                      migrationStatuses := initialStatuses (selectedCustomers e s)\<rparr>)))
           = Threw err"
      and "i \<in> set (selected_ids e s)"
  shows "migrationStatuses (fst (handleBatchAction e s)) i
         = Some \<lparr>status = failed, message = Some (message_or err ''Batch operation failed'')\<rparr>"
proof -
  have u: "\<forall>c\<in>set (selectedCustomers e s). migrationStatuses s (customer_id (customer c)) = None"
    using assms(4) by (simp add: selected_ids_def)
  obtain st evs where x: "executeBatchAction (Some a) (selected_ids e s)
                   (map (\<lambda>c. Some (customer c)) (selectedCustomers e s))
                   (Some batchStatusCallback)
                   (s\<lparr>isBatchMigrationInProgress := True,
                      migrationStatuses := initialStatuses (selectedCustomers e s)\<rparr>)
                = (st, evs, Threw err)"
    using assms(5) by (metis prod.collapse)
  then have "fst (handleBatchAction e s) = markRemainingFailed s (selectedCustomers e s) err st"
    by (simp add: handleBatchAction_migrate [OF assms(1,2,3)])
  with assms(6) show ?thesis
    by (simp add: markRemainingFailed_unseen [OF u] selected_ids_def)
qed

text \<open>
  C1 at a failing input. The three customers are selected and the \<open>migrate\<close> action is
  confirmed. The call for \<open>a\<close> reports success, the call for \<open>b\<close> reports that it starts and
  throws \<open>boom\<close>: at the throw \<open>a\<close> is \<open>completed\<close>, \<open>b\<close> is \<open>in_progress\<close> and \<open>c\<close> is
  \<open>pending\<close>. The \<open>catch\<close> block looks the statuses up in the map of the render in which
  the run was started, which is empty, and so sets all three to \<open>failed\<close>: the completed
  \<open>a\<close> does not keep its status.
\<close>

theorem batch_abort_overwrites_finished:
  "isMultiSelectMode batch_ready \<and> selectedCustomerIds batch_ready = {''a'', ''b'', ''c''}
   \<and> isMenuOpen batch_ready \<and> snd (useInput migrate_env [] return_key batch_ready)
   \<and> map (migrationStatuses (fst at_throw)) [''a'', ''b'', ''c'']
     = [Some \<lparr>status = completed, message = Some ''Migration completed successfully''\<rparr>,
        Some \<lparr>status = in_progress, message = Some ''Starting''\<rparr>,
        Some \<lparr>status = pending, message = None\<rparr>]
   \<and> snd (snd at_throw) = Threw (Error ''boom'')
   \<and> map (migrationStatuses (fst (handleOptionSelect migrate_env batch_ready))) [''a'', ''b'', ''c'']
     = [Some \<lparr>status = failed, message = Some ''boom''\<rparr>,
        Some \<lparr>status = failed, message = Some ''boom''\<rparr>,
        Some \<lparr>status = failed, message = Some ''boom''\<rparr>]"
  by code_simp

text \<open>
  Where the confirm key of the action menu leads. A batch gets the selected identifiers of
  the current page, not the whole selection. With multi-select off or nothing selected,
  the highlighted action's handler is called with the record under the cursor.
\<close>

lemma batch_ids_current_page:
  "set (selected_ids e s) = selectedCustomerIds s \<inter> page_ids e s"
  by (auto simp: selected_ids_def selectedCustomers_def page_ids_def)

lemma single_action_path:
  assumes "\<not> (isMultiSelectMode s \<and> selectedCustomerIds s \<noteq> {})"
      and "item_at (currentCustomers e s) (selectedCustomerIndex s) = Some entry"
      and "item_at (actions e) (selectedActionIndex s) = Some a"
  shows "fst (snd (handleOptionSelect e s))
         = [SingleHandlerCalled (action_id a) (customer_id (customer entry))]"
  using assms
  by (auto simp: handleOptionSelect_def executeSelectedAction_def Let_def
      split: prod.splits outcome.splits option.splits)

text \<open>
  C2 at a failing input. With \<open>a\<close> selected on the first page and \<open>c\<close> on the second, the
  confirm key on the second page starts a batch on \<open>c\<close> alone: \<open>handleBatchAction\<close> takes
  the selected customers from the current page, and \<open>a\<close> is not processed.
\<close>

theorem batch_takes_current_page_only:
  "isMultiSelectMode two_pages_selected \<and> selectedCustomerIds two_pages_selected = {''a'', ''c''}
   \<and> currentPage two_pages_selected = 1 \<and> isMenuOpen two_pages_selected
   \<and> snd (useInput paged_env [] return_key two_pages_selected)
   \<and> fst (snd (handleOptionSelect paged_env two_pages_selected))
     = [HandlerCalled 0 ''c'', HandlerSettled 0]"
  by code_simp

text \<open>
  C6, as amended. A run carries no session token. A status callback, whichever run it
  comes from and whenever it fires, writes the entry for its identifier into the status
  map of that moment and changes nothing else: after the overlay has been closed it
  writes into the emptied map, after a later run has started into the map of that run.
\<close>

theorem stale_callback_is_applied:
  "migrationStatuses (batchStatusCallback customerId msg st)
     = (migrationStatuses st)(customerId \<mapsto> \<lparr>status = finalStatus msg, message = Some msg\<rparr>)
   \<and> (batchStatusCallback customerId msg st)\<lparr>migrationStatuses := migrationStatuses st\<rparr> = st
   \<and> (isBatchMigrationInProgress st \<and> escape k \<longrightarrow>
        migrationStatuses (batchStatusCallback customerId msg (press e input k st))
        = [customerId \<mapsto> \<lparr>status = finalStatus msg, message = Some msg\<rparr>])"
  by (simp add: batchStatusCallback_def press_def useInput_def runEffects_def)


lemma stale_examples:
  "isBatchMigrationInProgress first_run"
  "escape escape_key"
  by code_simp+

text \<open>The first run's callback for \<open>a\<close> after its overlay has been closed.\<close>

theorem stale_callback_is_applied_witness:
  "isBatchMigrationInProgress first_run \<and> escape escape_key
   \<and> migrationStatuses
       (batchStatusCallback ''a'' ''Migration completed successfully'' first_run_closed)
     = [''a'' \<mapsto> \<lparr>status = completed, message = Some ''Migration completed successfully''\<rparr>]"
  using stale_callback_is_applied [of "''a''" "''Migration completed successfully''" first_run
      escape_key quiet_env "[]"] stale_examples
  by (simp add: first_run_closed_def finalStatus_examples)

text \<open>
  C6 as stated fails. After the overlay of the first run has been closed, that run's
  callback for \<open>a\<close> puts an entry into the emptied map; after the second run, on \<open>b\<close>, has
  started, it puts the entry for \<open>a\<close> into the map of the second run.
\<close>

theorem stale_callback_counterexample:
  "\<not> isBatchMigrationInProgress first_run_closed
   \<and> migrationStatuses first_run_closed ''a'' = None
   \<and> migrationStatuses
       (batchStatusCallback ''a'' ''Migration completed successfully'' first_run_closed) ''a''
     = Some \<lparr>status = completed, message = Some ''Migration completed successfully''\<rparr>
   \<and> isBatchMigrationInProgress second_run
   \<and> map (migrationStatuses second_run) [''a'', ''b'']
     = [None, Some \<lparr>status = pending, message = None\<rparr>]
   \<and> map (migrationStatuses
            (batchStatusCallback ''a'' ''Migration completed successfully'' second_run))
       [''a'', ''b'']
     = [Some \<lparr>status = completed, message = Some ''Migration completed successfully''\<rparr>,
        Some \<lparr>status = pending, message = None\<rparr>]"
  by code_simp

end
